theory Spec2Isabelle
  imports Main "HOL-Library.Word" "HOL-Library.AList" "HOL-Library.List_Lexorder"
begin

section \<open>Python values used by file_integrity_monitor.py\<close>

text \<open>
  A Python \<open>str\<close> is a sequence of Unicode code points, so it is modelled as a list of
  naturals (a code point is below \<open>0x110000\<close>); \<open>str\<close> turns an ASCII literal into
  such a list. A \<open>bytes\<close> value is a list of 8-bit words.
\<close>

type_synonym pystr = "nat list"

type_synonym bytes = "8 word list"

definition str :: "string \<Rightarrow> pystr" where
  "str s = map of_char s"

text \<open>
  A \<open>dict\<close> is an association list in insertion order whose first binding of a key is
  the one that counts; \<open>d[k] = v\<close> replaces the value of an existing key in place and
  appends a new key at the end, which is \<open>AList.update\<close>. \<open>set(d)\<close> is the set of keys.
  Reading \<open>d[k]\<close> of a missing key raises \<open>KeyError\<close>.
\<close>

type_synonym ('k, 'v) dict = "('k \<times> 'v) list"

datatype key_error = KeyError

definition dict_keys :: "('k, 'v) dict \<Rightarrow> 'k set" where
  "dict_keys d = set (map fst d)"

definition dict_getitem :: "('k, 'v) dict \<Rightarrow> 'k \<Rightarrow> key_error + 'v" where
  "dict_getitem d k = (case map_of d k of None \<Rightarrow> Inl KeyError | Some v \<Rightarrow> Inr v)"

definition dict_setitem :: "('k, 'v) dict \<Rightarrow> 'k \<Rightarrow> 'v \<Rightarrow> ('k, 'v) dict" where
  "dict_setitem d k v = AList.update k v d"

text \<open>
  Python does not say in which order a \<open>for\<close> loop visits the elements of a set. The
  order is a parameter of the model: a function from a set to the list of its elements
  as the loop meets them. All that is known of it is that it visits every element of a
  finite set once.
\<close>

definition set_iteration :: "('k set \<Rightarrow> 'k list) \<Rightarrow> bool" where
  "set_iteration it = (\<forall>S. finite S \<longrightarrow> set (it S) = S \<and> distinct (it S))"

section \<open>compare_hashes\<close>

text \<open>
  The first two loops append every element they visit; the third appends the files
  whose two digests differ. Both subscripts of the third loop can raise \<open>KeyError\<close>
  in Python, so the model keeps that branch.
\<close>

fun append_each :: "'k list \<Rightarrow> 'k list \<Rightarrow> 'k list" where
  "append_each [] acc = acc"
| "append_each (file # files) acc = append_each files (acc @ [file])"

fun append_changed ::
  "('k, 'v) dict \<Rightarrow> ('k, 'v) dict \<Rightarrow> 'k list \<Rightarrow> 'k list \<Rightarrow> key_error + 'k list" where
  "append_changed old_hashes new_hashes [] changed = Inr changed"
| "append_changed old_hashes new_hashes (file # files) changed =
     (case dict_getitem old_hashes file of
        Inl e \<Rightarrow> Inl e
      | Inr a \<Rightarrow>
          (case dict_getitem new_hashes file of
             Inl e \<Rightarrow> Inl e
           | Inr b \<Rightarrow>
               append_changed old_hashes new_hashes files
                 (if a \<noteq> b then changed @ [file] else changed)))"

definition compare_hashes ::
  "('k set \<Rightarrow> 'k list) \<Rightarrow> ('k, 'v) dict \<Rightarrow> ('k, 'v) dict \<Rightarrow>
     key_error + ('k list \<times> 'k list \<times> 'k list)" where
  "compare_hashes it old_hashes new_hashes =
     (let old_files = dict_keys old_hashes;
          new_files = dict_keys new_hashes;
          added = append_each (it (new_files - old_files)) [];
          removed = append_each (it (old_files - new_files)) []
      in case append_changed old_hashes new_hashes (it (new_files \<inter> old_files)) [] of
           Inl e \<Rightarrow> Inl e
         | Inr changed \<Rightarrow> Inr (added, removed, changed))"

text \<open>
  The fourth class of the specification: a path of both snapshots whose two digests are
  equal. compare_hashes returns no list for it.
\<close>

definition unchanged :: "('k, 'v) dict \<Rightarrow> ('k, 'v) dict \<Rightarrow> 'k \<Rightarrow> bool" where
  "unchanged old_hashes new_hashes p =
     (p \<in> dict_keys old_hashes \<and> p \<in> dict_keys new_hashes \<and>
      dict_getitem old_hashes p = dict_getitem new_hashes p)"

text \<open>
  A scenario in the style of the specification's: a is removed, b is unchanged, c is
  added and d is modified.
\<close>

definition scenario_baseline :: "(pystr, pystr) dict" where
  "scenario_baseline = [(str ''a'', str ''h1''), (str ''b'', str ''h2''), (str ''d'', str ''h4'')]"

definition scenario_current :: "(pystr, pystr) dict" where
  "scenario_current = [(str ''b'', str ''h2''), (str ''c'', str ''h3''), (str ''d'', str ''h5'')]"

section \<open>calculate_file_hash and scan_directory\<close>

text \<open>
  The exceptions the program meets, each with the text that \<open>str(e)\<close> gives. All of
  them are subclasses of \<open>Exception\<close>, which is what the handler of
  \<open>scan_directory\<close> catches; \<open>UnicodeEncodeError\<close> is what \<open>print\<close> raises for a
  string that standard output cannot encode. \<open>os.walk\<close> tells \<open>OSError\<close> from the
  others.
\<close>

datatype exn =
    AttributeError pystr
  | TypeError pystr
  | ValueError pystr
  | UnicodeEncodeError pystr
  | OSError pystr

fun exn_str :: "exn \<Rightarrow> pystr" where
  "exn_str (AttributeError m) = m"
| "exn_str (TypeError m) = m"
| "exn_str (ValueError m) = m"
| "exn_str (UnicodeEncodeError m) = m"
| "exn_str (OSError m) = m"

fun is_OSError :: "exn \<Rightarrow> bool" where
  "is_OSError (OSError m) = True"
| "is_OSError e = False"

text \<open>
  \<open>print(line)\<close> either raises or adds the line to what has been printed. Which
  lines standard output refuses is a parameter of the model, a function from the line
  to the exception: it depends on the encoding and the error handler of the stream.
\<close>

definition py_print :: "(pystr \<Rightarrow> exn option) \<Rightarrow> pystr list \<Rightarrow> pystr \<Rightarrow> exn + pystr list" where
  "py_print stdout out line = (case stdout line of Some e \<Rightarrow> Inl e | None \<Rightarrow> Inr (out @ [line]))"

text \<open>
  The object that \<open>getattr(hashlib, algorithm)()\<close> returns, with its state made
  explicit: the state of the new object, what \<open>update(chunk)\<close> does to a state (it
  can raise: not every callable of the module returns a hash object), the digest of a
  state, and the exception that \<open>hexdigest()\<close> without an argument raises, if any
  (\<open>TypeError\<close> for \<open>shake_128\<close> and \<open>shake_256\<close>, whose \<open>hexdigest\<close> needs a
  length). Otherwise \<open>hexdigest\<close> is the digest in lowercase hexadecimal digits. The
  hash functions themselves are not modelled; what hashlib documents of every hash
  object is \<open>streaming\<close>: \<open>update\<close> never raises, and feeding data in pieces is the
  same as feeding the concatenation.
\<close>

record 's hash_obj =
  h_new :: 's
  h_update :: "'s \<Rightarrow> bytes \<Rightarrow> exn + 's"
  h_digest :: "'s \<Rightarrow> bytes"
  h_hexdigest_error :: "exn option"

definition streaming :: "'s hash_obj \<Rightarrow> bool" where
  "streaming h =
     ((\<forall>s. h_update h s [] = Inr s) \<and>
      (\<forall>s a. \<exists>s'. h_update h s a = Inr s') \<and>
      (\<forall>s a b s'. h_update h s a = Inr s' \<longrightarrow> h_update h s' b = h_update h s (a @ b)))"

definition hex_digit :: "nat \<Rightarrow> nat" where
  "hex_digit d = (if d < 10 then 48 + d else 87 + d)"

definition hex_of_bytes :: "bytes \<Rightarrow> pystr" where
  "hex_of_bytes bs = concat (map (\<lambda>b. [hex_digit (unat b div 16), hex_digit (unat b mod 16)]) bs)"

definition lower_hex :: "nat \<Rightarrow> bool" where
  "lower_hex c = ((48 \<le> c \<and> c \<le> 57) \<or> (97 \<le> c \<and> c \<le> 102))"

definition hexdigest :: "'s hash_obj \<Rightarrow> 's \<Rightarrow> exn + pystr" where
  "hexdigest h s =
     (case h_hexdigest_error h of
        Some e \<Rightarrow> Inl e
      | None \<Rightarrow> Inr (hex_of_bytes (h_digest h s)))"

text \<open>
  \<open>getattr(hashlib, algorithm)()\<close> has two steps. The lookup raises
  \<open>AttributeError\<close> when the module has no attribute of that name. The call of the
  attribute without arguments either raises or returns an object.
  \<open>algorithms_available\<close> is the set that \<open>main\<close> passes to argparse; nothing in
  the model ties it to the attributes.
\<close>

datatype 's attr = Returns "'s hash_obj" | Raises exn

record 's hashlib_module =
  attrs :: "pystr \<Rightarrow> 's attr option"
  algorithms_available :: "pystr set"

definition getattr_hashlib :: "'s hashlib_module \<Rightarrow> pystr \<Rightarrow> exn + 's attr" where
  "getattr_hashlib hashlib name =
     (case attrs hashlib name of
        None \<Rightarrow>
          Inl (AttributeError (str ''module '' @ [39] @ str ''hashlib'' @ [39]
                                 @ str '' has no attribute '' @ [39] @ name @ [39]))
      | Some a \<Rightarrow> Inr a)"

fun call_attr :: "'s attr \<Rightarrow> exn + 's hash_obj" where
  "call_attr (Returns h) = Inr h"
| "call_attr (Raises e) = Inl e"

text \<open>
  The file system as far as the program looks at it. \<open>tree_at\<close> is what
  \<open>os.scandir\<close> meets at the path given to \<open>os.walk\<close>: an exception (no such
  directory, or a path the system cannot take, such as one with a NUL character) or a
  tree, which is a file or a directory whose listing either fails with an \<open>OSError\<close>
  of the given text or gives named entries. \<open>open_rb\<close> is the outcome of opening a
  path in binary mode and reading it to the end. \<open>text_files\<close> holds the text of the
  files that \<open>load_hashes\<close> and \<open>save_hashes\<close> use, \<open>read_error\<close> and
  \<open>write_error\<close> the exception, if any, that opening such a file for reading or
  writing raises. The listing and the opening of a file are independent, as a file can
  vanish between the two.
\<close>

datatype node = File | Dir "pystr + (pystr \<times> node) list"

record filesystem =
  tree_at :: "pystr \<Rightarrow> exn + node"
  open_rb :: "pystr \<Rightarrow> exn + bytes"
  text_files :: "pystr \<Rightarrow> pystr option"
  read_error :: "pystr \<Rightarrow> exn option"
  write_error :: "pystr \<Rightarrow> exn option"

text \<open>
  The loop \<open>while chunk := f.read(8192): hash_func.update(chunk)\<close>, with the buffer
  size as a parameter \<open>n\<close> and the unread rest of the file as the state of \<open>f\<close>:
  \<open>f.read(n)\<close> returns the next \<open>n\<close> bytes, fewer at the end of the file, and the
  loop stops at the first empty chunk, or when \<open>update\<close> raises.
\<close>

function read_loop :: "nat \<Rightarrow> 's hash_obj \<Rightarrow> bytes \<Rightarrow> 's \<Rightarrow> exn + 's" where
  "read_loop n h rest s =
     (let chunk = take n rest
      in if chunk = [] then Inr s
         else (case h_update h s chunk of
                 Inl e \<Rightarrow> Inl e
               | Inr s' \<Rightarrow> read_loop n h (drop n rest) s'))"
  by pat_completeness auto
termination
  by (relation "measure (\<lambda>(n, h, rest, s). length rest)") auto

declare read_loop.simps [simp del]

text \<open>
  \<open>calculate_file_hash_with n\<close> is the function with buffer size \<open>n\<close>;
  \<open>calculate_file_hash\<close> is the source's, with 8192. The order is the source's:
  the lookup and the call, the opening of the file, the loop, \<open>hexdigest\<close>.
\<close>

definition calculate_file_hash_with ::
  "nat \<Rightarrow> 's hashlib_module \<Rightarrow> filesystem \<Rightarrow> pystr \<Rightarrow> pystr \<Rightarrow> exn + pystr" where
  "calculate_file_hash_with n hashlib fs file_path algorithm =
     (case getattr_hashlib hashlib algorithm of
        Inl e \<Rightarrow> Inl e
      | Inr a \<Rightarrow>
          (case call_attr a of
             Inl e \<Rightarrow> Inl e
           | Inr h \<Rightarrow>
               (case open_rb fs file_path of
                  Inl e \<Rightarrow> Inl e
                | Inr content \<Rightarrow>
                    (case read_loop n h content (h_new h) of
                       Inl e \<Rightarrow> Inl e
                     | Inr s \<Rightarrow> hexdigest h s))))"

definition calculate_file_hash ::
  "'s hashlib_module \<Rightarrow> filesystem \<Rightarrow> pystr \<Rightarrow> pystr \<Rightarrow> exn + pystr" where
  "calculate_file_hash = calculate_file_hash_with 8192"

text \<open>
  \<open>os.path.join\<close> of two components, as in posixpath (47 is the slash), and
  \<open>os.walk\<close> in its default mode: top-down, and with no \<open>onerror\<close>, so that a
  directory whose listing fails with an \<open>OSError\<close>, the root included, yields
  nothing and raises nothing. Any other exception of the listing of the root leaves
  \<open>os.walk\<close>; below the root the names come from the system, and a listing fails
  with an \<open>OSError\<close> only. Every entry that is not a directory is a file name of the
  triple.
\<close>

definition path_join :: "pystr \<Rightarrow> pystr \<Rightarrow> pystr" where
  "path_join a b =
     (if (case b of [] \<Rightarrow> False | c # _ \<Rightarrow> c = 47) then b
      else if a = [] \<or> last a = 47 then a @ b
      else a @ [47] @ b)"

fun walk :: "pystr \<Rightarrow> node \<Rightarrow> (pystr \<times> pystr list \<times> pystr list) list" where
  "walk dtop File = []"
| "walk dtop (Dir (Inl m)) = []"
| "walk dtop (Dir (Inr entries)) =
     (dtop, [name. (name, Dir _) \<leftarrow> entries], [name. (name, File) \<leftarrow> entries]) #
     concat (map (\<lambda>(name, n). case n of File \<Rightarrow> [] | Dir _ \<Rightarrow> walk (path_join dtop name) n)
               entries)"

definition os_walk ::
  "filesystem \<Rightarrow> pystr \<Rightarrow> exn + (pystr \<times> pystr list \<times> pystr list) list" where
  "os_walk fs dtop =
     (case tree_at fs dtop of
        Inl e \<Rightarrow> if is_OSError e then Inr [] else Inl e
      | Inr n \<Rightarrow> Inr (walk dtop n))"

text \<open>
  \<open>scan_directory\<close> threads the dictionary under construction and the lines printed
  so far through its two loops, and returns the dictionary or the exception that left
  it, with the lines printed. The \<open>try\<close> statement is the case distinction of
  \<open>scan_files\<close>: a digest is stored under the path; an exception of
  \<open>calculate_file_hash\<close> is caught and printed, and the dictionary is passed on as it
  is. The \<open>print\<close> stands in the handler, so what it raises is not caught.
  \<open>walk_paths\<close> names the paths the loops visit.
\<close>

definition error_line :: "pystr \<Rightarrow> exn \<Rightarrow> pystr" where
  "error_line file_path e = str ''Error hashing '' @ file_path @ str '': '' @ exn_str e"

fun scan_files ::
  "'s hashlib_module \<Rightarrow> (pystr \<Rightarrow> exn option) \<Rightarrow> filesystem \<Rightarrow> pystr \<Rightarrow> pystr \<Rightarrow> pystr list \<Rightarrow>
     (pystr, pystr) dict \<times> pystr list \<Rightarrow> (exn + (pystr, pystr) dict) \<times> pystr list" where
  "scan_files hashlib stdout fs algorithm root [] (file_hashes, out) = (Inr file_hashes, out)"
| "scan_files hashlib stdout fs algorithm root (name # names) (file_hashes, out) =
     (let file_path = path_join root name
      in case calculate_file_hash hashlib fs file_path algorithm of
           Inr h \<Rightarrow>
             scan_files hashlib stdout fs algorithm root names
               (dict_setitem file_hashes file_path h, out)
         | Inl e \<Rightarrow>
             (case py_print stdout out (error_line file_path e) of
                Inl raised \<Rightarrow> (Inl raised, out)
              | Inr out' \<Rightarrow>
                  scan_files hashlib stdout fs algorithm root names (file_hashes, out')))"

fun scan_walk ::
  "'s hashlib_module \<Rightarrow> (pystr \<Rightarrow> exn option) \<Rightarrow> filesystem \<Rightarrow> pystr \<Rightarrow>
     (pystr \<times> pystr list \<times> pystr list) list \<Rightarrow>
     (pystr, pystr) dict \<times> pystr list \<Rightarrow> (exn + (pystr, pystr) dict) \<times> pystr list" where
  "scan_walk hashlib stdout fs algorithm [] (file_hashes, out) = (Inr file_hashes, out)"
| "scan_walk hashlib stdout fs algorithm ((root, dirs, names) # rest) (file_hashes, out) =
     (case scan_files hashlib stdout fs algorithm root names (file_hashes, out) of
        (Inl raised, out') \<Rightarrow> (Inl raised, out')
      | (Inr file_hashes', out') \<Rightarrow>
          scan_walk hashlib stdout fs algorithm rest (file_hashes', out'))"

definition scan_directory ::
  "'s hashlib_module \<Rightarrow> (pystr \<Rightarrow> exn option) \<Rightarrow> filesystem \<Rightarrow> pystr \<Rightarrow> pystr \<Rightarrow>
     (exn + (pystr, pystr) dict) \<times> pystr list" where
  "scan_directory hashlib stdout fs directory algorithm =
     (case os_walk fs directory of
        Inl raised \<Rightarrow> (Inl raised, [])
      | Inr triples \<Rightarrow> scan_walk hashlib stdout fs algorithm triples ([], []))"

definition walk_paths :: "filesystem \<Rightarrow> pystr \<Rightarrow> pystr list" where
  "walk_paths fs directory =
     (case os_walk fs directory of
        Inl raised \<Rightarrow> []
      | Inr triples \<Rightarrow> concat (map (\<lambda>(root, dirs, names). map (path_join root) names) triples))"

section \<open>json.dump and json.load on snapshots\<close>

text \<open>
  \<open>json.dump(hashes, f, indent=4)\<close> for a dictionary from strings to strings, after
  CPython's json.encoder. With the default \<open>ensure_ascii\<close> a string is written between
  double quotes (34); the quote, the backslash (92) and the control characters have
  their two-letter or four-digit escapes, the characters from space to tilde are copied, any
  other character below \<open>0x10000\<close> is written as backslash, u and four lowercase
  hexadecimal digits, and a character from \<open>0x10000\<close> as the two escapes of its
  UTF-16 surrogate pair (\<open>0xD800\<close> is 55296 and \<open>0xDC00\<close> is 56320). The encoder
  computes the pair with shifts and masks; division by 1024 and the remainder are the
  same numbers. An empty dictionary is written as two braces; otherwise every item
  starts a line indented by four spaces, items are separated by a comma, key and value
  by a colon and a space, and the closing brace is on a line of its own.
\<close>

definition hex4 :: "nat \<Rightarrow> pystr" where
  "hex4 n = [hex_digit (n div 4096 mod 16), hex_digit (n div 256 mod 16),
             hex_digit (n div 16 mod 16), hex_digit (n mod 16)]"

definition escape_char :: "nat \<Rightarrow> pystr" where
  "escape_char c =
     (if c = 34 then [92, 34]
      else if c = 92 then [92, 92]
      else if c = 8 then [92, 98]
      else if c = 12 then [92, 102]
      else if c = 10 then [92, 110]
      else if c = 13 then [92, 114]
      else if c = 9 then [92, 116]
      else if 32 \<le> c \<and> c \<le> 126 then [c]
      else if c < 65536 then [92, 117] @ hex4 c
      else [92, 117] @ hex4 (55296 + (c - 65536) div 1024 mod 1024)
           @ [92, 117] @ hex4 (56320 + (c - 65536) mod 1024))"

definition encode_basestring_ascii :: "pystr \<Rightarrow> pystr" where
  "encode_basestring_ascii s = [34] @ concat (map escape_char s) @ [34]"

definition newline_indent :: pystr where
  "newline_indent = [10, 32, 32, 32, 32]"

fun dump_items :: "bool \<Rightarrow> (pystr, pystr) dict \<Rightarrow> pystr" where
  "dump_items first [] = []"
| "dump_items first ((k, v) # items) =
     (if first then [] else [44] @ newline_indent)
     @ encode_basestring_ascii k @ [58, 32] @ encode_basestring_ascii v
     @ dump_items False items"

definition json_dump :: "(pystr, pystr) dict \<Rightarrow> pystr" where
  "json_dump dct =
     (if dct = [] then [123, 125]
      else [123] @ newline_indent @ dump_items True dct @ [10] @ [125])"

text \<open>
  \<open>json.load\<close>, after CPython's json.decoder and json.scanner, for the documents
  that are an object whose values are strings. \<open>json_loads\<close> gives \<open>None\<close> on any
  other text: there Python either raises \<open>JSONDecodeError\<close> or returns a value that is
  not a dictionary of strings, and the model does not say which.

  \<open>scanstring\<close> reads a string from behind its opening quote and returns it with the
  text that follows the closing quote. A control character in a string is an error
  (strict mode). \<open>decode_escape\<close> reads what follows a backslash and returns the
  character and the number of characters it has read: the four-digit escape of a high
  surrogate that is followed by the four-digit escape of a low surrogate is read as the
  one character of that pair. \<open>parse_pairs\<close> reads the items of an object from behind
  the opening quote of a key, skipping white space around the colon, the comma and the
  brace, and \<open>dict_of_pairs\<close> is \<open>dict(pairs)\<close>: of two items with the same key the
  last one gives the value.
\<close>

definition whitespace :: "nat \<Rightarrow> bool" where
  "whitespace c = (c = 32 \<or> c = 9 \<or> c = 10 \<or> c = 13)"

definition skip_ws :: "pystr \<Rightarrow> pystr" where
  "skip_ws s = dropWhile whitespace s"

definition hex_value :: "nat \<Rightarrow> nat option" where
  "hex_value c =
     (if 48 \<le> c \<and> c \<le> 57 then Some (c - 48)
      else if 97 \<le> c \<and> c \<le> 102 then Some (c - 87)
      else if 65 \<le> c \<and> c \<le> 70 then Some (c - 55)
      else None)"

definition decode_uXXXX :: "pystr \<Rightarrow> nat option" where
  "decode_uXXXX s =
     (case s of
        a # b # c # d # rest \<Rightarrow>
          (case (hex_value a, hex_value b, hex_value c, hex_value d) of
             (Some x, Some y, Some z, Some w) \<Rightarrow> Some (((x * 16 + y) * 16 + z) * 16 + w)
           | _ \<Rightarrow> None)
      | _ \<Rightarrow> None)"

definition backslash :: "nat \<Rightarrow> nat option" where
  "backslash esc =
     (if esc = 34 then Some 34
      else if esc = 92 then Some 92
      else if esc = 47 then Some 47
      else if esc = 98 then Some 8
      else if esc = 102 then Some 12
      else if esc = 110 then Some 10
      else if esc = 114 then Some 13
      else if esc = 116 then Some 9
      else None)"

definition high_surrogate :: "nat \<Rightarrow> bool" where
  "high_surrogate c = (55296 \<le> c \<and> c \<le> 56319)"

definition low_surrogate :: "nat \<Rightarrow> bool" where
  "low_surrogate c = (56320 \<le> c \<and> c \<le> 57343)"

definition decode_escape :: "pystr \<Rightarrow> (nat \<times> nat) option" where
  "decode_escape s =
     (case s of
        [] \<Rightarrow> None
      | esc # s' \<Rightarrow>
          if esc \<noteq> 117 then map_option (\<lambda>ch. (ch, 1)) (backslash esc)
          else
            (case decode_uXXXX s' of
               None \<Rightarrow> None
             | Some uni \<Rightarrow>
                 if high_surrogate uni \<and> take 2 (drop 4 s') = [92, 117]
                 then
                   (case decode_uXXXX (drop 6 s') of
                      None \<Rightarrow> None
                    | Some uni2 \<Rightarrow>
                        if low_surrogate uni2
                        then Some (65536 + ((uni - 55296) * 1024 + (uni2 - 56320)), 11)
                        else Some (uni, 5))
                 else Some (uni, 5)))"

definition prepend :: "nat \<Rightarrow> (pystr \<times> pystr) option \<Rightarrow> (pystr \<times> pystr) option" where
  "prepend ch r = map_option (\<lambda>(s, rest). (ch # s, rest)) r"

fun scanstring :: "pystr \<Rightarrow> (pystr \<times> pystr) option" where
  "scanstring [] = None"
| "scanstring (c # cs) =
     (if c = 34 then Some ([], cs)
      else if c = 92 then
        (case decode_escape cs of
           None \<Rightarrow> None
         | Some (ch, k) \<Rightarrow> prepend ch (scanstring (drop k cs)))
      else if c < 32 then None
      else prepend c (scanstring cs))"

lemma scanstring_shorter: "scanstring s = Some (r, rest) \<Longrightarrow> length rest < length s"
proof (induction s arbitrary: r rest rule: scanstring.induct)
  case 1
  then show ?case by simp
next
  case (2 c cs)
  show ?case
  proof (cases "c = 34")
    case True
    with 2(3) show ?thesis by simp
  next
    case n34: False
    show ?thesis
    proof (cases "c = 92")
      case True
      with n34 2(3) obtain ch k where e: "decode_escape cs = Some (ch, k)"
        by (auto split: option.splits)
      with n34 True 2(3) obtain r' where "scanstring (drop k cs) = Some (r', rest)"
        by (auto simp: prepend_def)
      from 2(1) [OF n34 True e [symmetric, THEN sym] refl this]
      show ?thesis by simp
    next
      case False
      with n34 2(3) have "\<not> c < 32" by (auto split: if_splits)
      with n34 False 2(3) obtain r' where "scanstring cs = Some (r', rest)"
        by (auto simp: prepend_def)
      from 2(2) [OF n34 False \<open>\<not> c < 32\<close> this]
      show ?thesis by simp
    qed
  qed
qed

lemma length_skip_ws: "length (skip_ws s) \<le> length s"
  by (simp add: skip_ws_def length_dropWhile_le)

function parse_pairs :: "pystr \<Rightarrow> ((pystr \<times> pystr) list \<times> pystr) option" where
  "parse_pairs s =
     (case scanstring s of
        None \<Rightarrow> None
      | Some (key, r1) \<Rightarrow>
          (case skip_ws r1 of
             [] \<Rightarrow> None
           | c1 # r2 \<Rightarrow>
               if c1 \<noteq> 58 then None
               else
                 (case skip_ws r2 of
                    [] \<Rightarrow> None
                  | c2 # r3 \<Rightarrow>
                      if c2 \<noteq> 34 then None
                      else
                        (case scanstring r3 of
                           None \<Rightarrow> None
                         | Some (val, r4) \<Rightarrow>
                             (case skip_ws r4 of
                                [] \<Rightarrow> None
                              | c3 # r5 \<Rightarrow>
                                  if c3 = 125 then Some ([(key, val)], r5)
                                  else if c3 \<noteq> 44 then None
                                  else
                                    (case skip_ws r5 of
                                       [] \<Rightarrow> None
                                     | c4 # r6 \<Rightarrow>
                                         if c4 \<noteq> 34 then None
                                         else map_option (\<lambda>(ps, r). ((key, val) # ps, r))
                                                (parse_pairs r6)))))))"
  by pat_completeness auto
termination
proof (relation "measure length", goal_cases)
  case 1
  show ?case by simp
next
  case (2 s x key r1 c1 r2 c2 r3 x2 val r4 c3 r5 c4 r6)
  from 2(1,2) have a: "length r1 < length s"
    using scanstring_shorter [of s key r1] by simp
  from 2(3) have b: "length r2 < length r1"
    using length_skip_ws [of r1] by simp
  from 2(5) have c: "length r3 < length r2"
    using length_skip_ws [of r2] by simp
  from 2(7,8) have d: "length r4 < length r3"
    using scanstring_shorter [of r3 val r4] by simp
  from 2(9) have e: "length r5 < length r4"
    using length_skip_ws [of r4] by simp
  from 2(12) have f: "length r6 < length r5"
    using length_skip_ws [of r5] by simp
  from a b c d e f show ?case by simp
qed

declare parse_pairs.simps [simp del]

definition dict_of_pairs :: "(pystr \<times> pystr) list \<Rightarrow> (pystr, pystr) dict" where
  "dict_of_pairs pairs = fold (\<lambda>(k, v) d. dict_setitem d k v) pairs []"

definition parse_object :: "pystr \<Rightarrow> ((pystr, pystr) dict \<times> pystr) option" where
  "parse_object s =
     (case skip_ws s of
        [] \<Rightarrow> None
      | c # r \<Rightarrow>
          if c = 125 then Some ([], r)
          else if c = 34 then map_option (\<lambda>(ps, r'). (dict_of_pairs ps, r')) (parse_pairs r)
          else None)"

definition json_loads :: "pystr \<Rightarrow> (pystr, pystr) dict option" where
  "json_loads s =
     (case skip_ws s of
        [] \<Rightarrow> None
      | c # r \<Rightarrow>
          if c \<noteq> 123 then None
          else
            (case parse_object r of
               None \<Rightarrow> None
             | Some (d, rest) \<Rightarrow> if skip_ws rest = [] then Some d else None))"

text \<open>
  The strings that come back from the file unchanged: every character is a code point,
  and no high surrogate is followed at once by a low surrogate. \<open>no_low_escape\<close>
  says of a text that it does not start with the escape of a low surrogate.
\<close>

definition code_point :: "nat \<Rightarrow> bool" where
  "code_point c = (c < 1114112)"

fun no_surrogate_pair :: "pystr \<Rightarrow> bool" where
  "no_surrogate_pair (a # b # s) =
     (\<not> (high_surrogate a \<and> low_surrogate b) \<and> no_surrogate_pair (b # s))"
| "no_surrogate_pair s = True"

definition json_safe :: "pystr \<Rightarrow> bool" where
  "json_safe s = (list_all code_point s \<and> no_surrogate_pair s)"

definition no_low_escape :: "pystr \<Rightarrow> bool" where
  "no_low_escape rest =
     (take 2 rest = [92, 117] \<longrightarrow>
        (\<exists>u. decode_uXXXX (drop 2 rest) = Some u \<and> \<not> low_surrogate u))"

definition snapshot_safe :: "(pystr, pystr) dict \<Rightarrow> bool" where
  "snapshot_safe d =
     (distinct (map fst d) \<and> list_all (\<lambda>(k, v). json_safe k \<and> json_safe v) d)"

section \<open>load_hashes, save_hashes and main\<close>

text \<open>
  \<open>load_hashes\<close> tests \<open>os.path.exists\<close> first, so that a missing file never reaches
  \<open>open\<close>. Its result is a snapshot, an exception raised by \<open>open\<close>, or
  \<open>NotSnapshot\<close> when the text of the file is outside the documents that
  \<open>json_loads\<close> models. \<open>save_hashes\<close> replaces the text of the file, or raises what
  \<open>open\<close> raises and changes nothing.
\<close>

definition HASH_DB :: pystr where
  "HASH_DB = str ''file_hashes.json''"

datatype loaded = Snapshot "(pystr, pystr) dict" | Raised exn | NotSnapshot

definition load_hashes :: "filesystem \<Rightarrow> pystr \<Rightarrow> loaded" where
  "load_hashes fs db_path =
     (case text_files fs db_path of
        None \<Rightarrow> Snapshot []
      | Some content \<Rightarrow>
          (case read_error fs db_path of
             Some e \<Rightarrow> Raised e
           | None \<Rightarrow>
               (case json_loads content of
                  None \<Rightarrow> NotSnapshot
                | Some d \<Rightarrow> Snapshot d)))"

definition save_hashes :: "filesystem \<Rightarrow> (pystr, pystr) dict \<Rightarrow> pystr \<Rightarrow> exn + filesystem" where
  "save_hashes fs hashes db_path =
     (case write_error fs db_path of
        Some e \<Rightarrow> Inl e
      | None \<Rightarrow> Inr (fs\<lparr>text_files := (text_files fs)(db_path \<mapsto> json_dump hashes)\<rparr>))"

text \<open>
  \<open>main\<close> starts from the values that the command line gives for the three arguments
  of the parser. argparse checks a given \<open>--algorithm\<close> against its \<open>choices\<close> and
  ends the process with status 2 when it is not among them; the default \<open>sha256\<close> is
  not checked. \<open>main\<close> returns how the process ends, the lines printed on standard
  output, and the file system it leaves: \<open>Returned\<close> is exit status 0, an uncaught
  exception is status 1. Every \<open>print\<close> of \<open>main\<close> can raise, and nothing catches
  it. \<open>change_lines\<close> are the lines of the report, which \<open>print_lines\<close> prints one
  after the other. \<open>Unmodelled\<close> stands for a baseline file that holds something else
  than a dictionary of strings.
\<close>

record args =
  arg_directory :: pystr
  arg_init :: bool
  arg_algorithm :: "pystr option"

definition parse_args :: "'s hashlib_module \<Rightarrow> args \<Rightarrow> nat + pystr" where
  "parse_args hashlib a =
     (case arg_algorithm a of
        None \<Rightarrow> Inr (str ''sha256'')
      | Some name \<Rightarrow> if name \<in> algorithms_available hashlib then Inr name else Inl 2)"

datatype ending = Returned | SystemExit nat | Uncaught exn | Uncaught_KeyError | Unmodelled

definition change_lines :: "pystr list \<Rightarrow> pystr list \<Rightarrow> pystr list \<Rightarrow> pystr list" where
  "change_lines added removed changed =
     (if added = [] \<and> removed = [] \<and> changed = []
      then [str ''No file changes detected. All files are intact.'']
      else (if added \<noteq> [] then str ''Added files:'' # map (\<lambda>f. str ''  + '' @ f) added else [])
         @ (if removed \<noteq> [] then str ''Removed files:'' # map (\<lambda>f. str ''  - '' @ f) removed else [])
         @ (if changed \<noteq> [] then str ''Modified files:'' # map (\<lambda>f. str ''  * '' @ f) changed else []))"

fun print_lines ::
  "(pystr \<Rightarrow> exn option) \<Rightarrow> pystr list \<Rightarrow> pystr list \<Rightarrow> exn option \<times> pystr list" where
  "print_lines stdout out [] = (None, out)"
| "print_lines stdout out (line # lines) =
     (case py_print stdout out line of
        Inl raised \<Rightarrow> (Some raised, out)
      | Inr out' \<Rightarrow> print_lines stdout out' lines)"

definition main ::
  "(pystr set \<Rightarrow> pystr list) \<Rightarrow> 's hashlib_module \<Rightarrow> (pystr \<Rightarrow> exn option) \<Rightarrow> filesystem \<Rightarrow>
     args \<Rightarrow> ending \<times> pystr list \<times> filesystem" where
  "main it hashlib stdout fs a =
     (case parse_args hashlib a of
        Inl status \<Rightarrow> (SystemExit status, [], fs)
      | Inr algorithm \<Rightarrow>
          if arg_init a then
            (case py_print stdout []
                    (str ''Initializing hash database for '' @ arg_directory a @ str ''...'') of
               Inl e \<Rightarrow> (Uncaught e, [], fs)
             | Inr out1 \<Rightarrow>
                 (case scan_directory hashlib stdout fs (arg_directory a) algorithm of
                    (Inl e, out2) \<Rightarrow> (Uncaught e, out1 @ out2, fs)
                  | (Inr hashes, out2) \<Rightarrow>
                      (case save_hashes fs hashes HASH_DB of
                         Inl e \<Rightarrow> (Uncaught e, out1 @ out2, fs)
                       | Inr fs' \<Rightarrow>
                           (case py_print stdout (out1 @ out2)
                                   (str ''Initialization complete. Hash database saved.'') of
                              Inl e \<Rightarrow> (Uncaught e, out1 @ out2, fs')
                            | Inr out3 \<Rightarrow> (Returned, out3, fs')))))
          else
            (case py_print stdout []
                    (str ''Checking file integrity in '' @ arg_directory a @ str ''...'') of
               Inl e \<Rightarrow> (Uncaught e, [], fs)
             | Inr out1 \<Rightarrow>
                 (case load_hashes fs HASH_DB of
                    Raised e \<Rightarrow> (Uncaught e, out1, fs)
                  | NotSnapshot \<Rightarrow> (Unmodelled, out1, fs)
                  | Snapshot old_hashes \<Rightarrow>
                      (case scan_directory hashlib stdout fs (arg_directory a) algorithm of
                         (Inl e, out2) \<Rightarrow> (Uncaught e, out1 @ out2, fs)
                       | (Inr new_hashes, out2) \<Rightarrow>
                           (case compare_hashes it old_hashes new_hashes of
                              Inl KeyError \<Rightarrow> (Uncaught_KeyError, out1 @ out2, fs)
                            | Inr (added, removed, changed) \<Rightarrow>
                                (case print_lines stdout (out1 @ out2)
                                        (change_lines added removed changed) of
                                   (Some e, out3) \<Rightarrow> (Uncaught e, out3, fs)
                                 | (None, out3) \<Rightarrow> (Returned, out3, fs)))))))"

text \<open>
  The root of a scan is unreadable when its listing fails with an \<open>OSError\<close> (nothing
  is at the path, or the directory cannot be listed) or when a file is there.
\<close>

definition root_unreadable :: "filesystem \<Rightarrow> pystr \<Rightarrow> bool" where
  "root_unreadable fs directory =
     (case tree_at fs directory of
        Inl e \<Rightarrow> is_OSError e
      | Inr File \<Rightarrow> True
      | Inr (Dir (Inl m)) \<Rightarrow> True
      | Inr (Dir (Inr entries)) \<Rightarrow> False)"

section \<open>An example environment\<close>

text \<open>
  Concrete values on which the theorems below are tried. \<open>sum8\<close> is a toy algorithm
  that adds the bytes modulo 256. The example hashlib has it, and under the name
  \<open>shake_128\<close> an object like those of that algorithm: its \<open>hexdigest\<close> needs a
  length. Its \<open>algorithms_available\<close> lists both and \<open>ripemd160\<close>, which, as in a
  Python built with OpenSSL, is no attribute of the module. \<open>utf8_stdout\<close> is a
  standard output in UTF-8 with the error handler \<open>strict\<close>: it refuses a line that
  holds a surrogate. The file system has the tree \<open>d/a.txt\<close>, \<open>d/b.txt\<close>,
  \<open>d/sub/c.txt\<close>, in which \<open>d/b.txt\<close> cannot be opened, and a directory \<open>e\<close>
  with \<open>y.txt\<close> and a file that cannot be opened and whose name holds the lone
  surrogate \<open>0xDCFF\<close> (56575), as \<open>os.walk\<close> gives it for a name with a byte that
  is not UTF-8. No baseline has been saved. The texts of the exceptions are those of
  CPython on Linux, the one of \<open>UnicodeEncodeError\<close> shortened.
\<close>

definition sum8 :: "8 word hash_obj" where
  "sum8 = \<lparr>h_new = 0, h_update = (\<lambda>s bs. Inr (s + sum_list bs)), h_digest = (\<lambda>s. [s]),
            h_hexdigest_error = None\<rparr>"

definition shake_like :: "8 word hash_obj" where
  "shake_like =
     sum8\<lparr>h_hexdigest_error :=
             Some (TypeError (str ''hexdigest() missing required argument '' @ [39]
                                @ str ''length'' @ [39] @ str '' (pos 1)''))\<rparr>"

definition example_hashlib :: "8 word hashlib_module" where
  "example_hashlib =
     \<lparr>attrs = [str ''sum8'' \<mapsto> Returns sum8, str ''shake_128'' \<mapsto> Returns shake_like],
      algorithms_available = {str ''sum8'', str ''shake_128'', str ''ripemd160''}\<rparr>"

definition utf8_stdout :: "pystr \<Rightarrow> exn option" where
  "utf8_stdout line =
     (if list_ex (\<lambda>c. high_surrogate c \<or> low_surrogate c) line
      then Some (UnicodeEncodeError (str ''surrogates not allowed''))
      else None)"

definition bad_name :: pystr where
  "bad_name = str ''x'' @ [56575] @ str ''.txt''"

definition example_fs :: filesystem where
  "example_fs =
     \<lparr>tree_at =
        (\<lambda>p. if p = str ''d''
             then Inr (Dir (Inr [(str ''a.txt'', File), (str ''b.txt'', File),
                                 (str ''sub'', Dir (Inr [(str ''c.txt'', File)]))]))
             else if p = str ''e''
             then Inr (Dir (Inr [(bad_name, File), (str ''y.txt'', File)]))
             else Inl (OSError (str ''[Errno 2] No such file or directory: '' @ [39] @ p @ [39]))),
      open_rb =
        (\<lambda>p. if p = str ''d/a.txt'' then Inr [1, 2, 3]
             else if p = str ''d/sub/c.txt'' then Inr [255, 1]
             else if p = str ''e/y.txt'' then Inr [7]
             else if p = str ''e/'' @ bad_name
             then Inl (OSError (str ''[Errno 13] Permission denied: '' @ [39] @ str ''e/x''
                                  @ [92] @ str ''udcff.txt'' @ [39]))
             else Inl (OSError (str ''[Errno 13] Permission denied: '' @ [39] @ p @ [39]))),
      text_files = Map.empty,
      read_error = Map.empty,
      write_error = Map.empty\<rparr>"

text \<open>
  The loops of \<open>scan_directory\<close> over the list of the paths they visit, for the
  proofs: \<open>scan_paths\<close> with the \<open>print\<close> that can raise, \<open>scan_one\<close> and
  \<open>report\<close> for one round when it does not. \<open>printable\<close> says that standard
  output takes the error line of every path of a list whose hashing fails.
\<close>

fun scan_paths ::
  "'s hashlib_module \<Rightarrow> (pystr \<Rightarrow> exn option) \<Rightarrow> filesystem \<Rightarrow> pystr \<Rightarrow> pystr list \<Rightarrow>
     (pystr, pystr) dict \<times> pystr list \<Rightarrow> (exn + (pystr, pystr) dict) \<times> pystr list" where
  "scan_paths hashlib stdout fs algorithm [] (file_hashes, out) = (Inr file_hashes, out)"
| "scan_paths hashlib stdout fs algorithm (file_path # paths) (file_hashes, out) =
     (case calculate_file_hash hashlib fs file_path algorithm of
        Inr h \<Rightarrow>
          scan_paths hashlib stdout fs algorithm paths (dict_setitem file_hashes file_path h, out)
      | Inl e \<Rightarrow>
          (case py_print stdout out (error_line file_path e) of
             Inl raised \<Rightarrow> (Inl raised, out)
           | Inr out' \<Rightarrow> scan_paths hashlib stdout fs algorithm paths (file_hashes, out')))"




text \<open>
  Two snapshots for the round trip through the baseline file. The key of the first is a
  high surrogate followed by a low surrogate. The first key of the second holds a lone
  low surrogate, a quote, a backslash, a line feed, a Latin-1 letter and a character
  beyond \<open>0xFFFF\<close>.
\<close>

definition surrogate_snapshot :: "(pystr, pystr) dict" where
  "surrogate_snapshot = [([55296, 56320], str ''00'')]"

definition tricky_snapshot :: "(pystr, pystr) dict" where
  "tricky_snapshot =
     [(str ''d/'' @ [56575, 34, 92, 10, 233, 128512] @ str ''.txt'', str ''06''),
      (str ''d/b.txt'', str ''00'')]"

text \<open>
  Command lines: one names a directory the example file system does not have, one
  initialises the baseline of \<open>d\<close> with a given algorithm.
\<close>

definition missing_args :: "bool \<Rightarrow> args" where
  "missing_args i = \<lparr>arg_directory = str ''missing'', arg_init = i, arg_algorithm = Some (str ''sum8'')\<rparr>"

definition init_args :: "pystr \<Rightarrow> args" where
  "init_args name = \<lparr>arg_directory = str ''d'', arg_init = True, arg_algorithm = Some name\<rparr>"

section \<open>Facts about dictionaries and the loops\<close>

lemma finite_dict_keys: "finite (dict_keys d)"
  by (simp add: dict_keys_def)

lemma dict_keys_dom: "dict_keys d = dom (map_of d)"
  by (simp add: dict_keys_def dom_map_of_conv_image_fst)

lemma append_each_eq: "append_each xs acc = acc @ xs"
  by (induction xs arbitrary: acc) simp_all

lemma append_changed_eq:
  assumes "set files \<subseteq> dict_keys old_hashes \<inter> dict_keys new_hashes"
  shows "append_changed old_hashes new_hashes files changed =
           Inr (changed @ filter (\<lambda>f. map_of old_hashes f \<noteq> map_of new_hashes f) files)"
  using assms
proof (induction files arbitrary: changed)
  case Nil
  then show ?case by simp
next
  case (Cons f files)
  then have inold: "f \<in> dict_keys old_hashes" and innew: "f \<in> dict_keys new_hashes"
    by auto
  from inold obtain a where a: "map_of old_hashes f = Some a"
    by (auto simp: dict_keys_dom)
  from innew obtain b where b: "map_of new_hashes f = Some b"
    by (auto simp: dict_keys_dom)
  from Cons.prems have rest: "set files \<subseteq> dict_keys old_hashes \<inter> dict_keys new_hashes"
    by simp
  show ?case
    using a b Cons.IH [OF rest] by (simp add: dict_getitem_def)
qed

lemma compare_hashes_eq:
  assumes "set_iteration it"
  shows "compare_hashes it old_hashes new_hashes =
           Inr (it (dict_keys new_hashes - dict_keys old_hashes),
                it (dict_keys old_hashes - dict_keys new_hashes),
                filter (\<lambda>f. map_of old_hashes f \<noteq> map_of new_hashes f)
                  (it (dict_keys new_hashes \<inter> dict_keys old_hashes)))"
proof -
  have "finite (dict_keys new_hashes \<inter> dict_keys old_hashes)"
    by (simp add: finite_dict_keys)
  with assms have "set (it (dict_keys new_hashes \<inter> dict_keys old_hashes))
      = dict_keys new_hashes \<inter> dict_keys old_hashes"
    by (simp add: set_iteration_def)
  then have "set (it (dict_keys new_hashes \<inter> dict_keys old_hashes))
      \<subseteq> dict_keys old_hashes \<inter> dict_keys new_hashes"
    by auto
  from append_changed_eq [OF this, of "[]"] show ?thesis
    by (simp add: compare_hashes_def Let_def append_each_eq)
qed

lemma set_iteration_set:
  "set_iteration it \<Longrightarrow> set (it (dict_keys a - dict_keys b)) = dict_keys a - dict_keys b"
  "set_iteration it \<Longrightarrow> set (it (dict_keys a \<inter> dict_keys b)) = dict_keys a \<inter> dict_keys b"
  by (simp_all add: set_iteration_def finite_dict_keys)

lemma set_iteration_distinct:
  "set_iteration it \<Longrightarrow> distinct (it (dict_keys a - dict_keys b))"
  "set_iteration it \<Longrightarrow> distinct (it (dict_keys a \<inter> dict_keys b))"
  by (simp_all add: set_iteration_def finite_dict_keys)

lemma set_iteration_sorted: "set_iteration (sorted_list_of_set :: 'k::linorder set \<Rightarrow> 'k list)"
  by (simp add: set_iteration_def)

lemma getitem_neq_iff:
  assumes "p \<in> dict_keys old_hashes \<inter> dict_keys new_hashes"
  shows "(map_of old_hashes p \<noteq> map_of new_hashes p)
           = (dict_getitem old_hashes p \<noteq> dict_getitem new_hashes p)"
proof -
  from assms obtain a b where "map_of old_hashes p = Some a" "map_of new_hashes p = Some b"
    by (auto simp: dict_keys_dom)
  then show ?thesis by (simp add: dict_getitem_def)
qed

lemma compare_hashes_char:
  assumes "set_iteration it"
  obtains added removed changed where
    "compare_hashes it old_hashes new_hashes = Inr (added, removed, changed)"
    "set added = dict_keys new_hashes - dict_keys old_hashes"
    "set removed = dict_keys old_hashes - dict_keys new_hashes"
    "set changed = {p \<in> dict_keys old_hashes \<inter> dict_keys new_hashes.
                      dict_getitem old_hashes p \<noteq> dict_getitem new_hashes p}"
    "distinct added" "distinct removed" "distinct changed"
proof -
  let ?ch = "filter (\<lambda>f. map_of old_hashes f \<noteq> map_of new_hashes f)
               (it (dict_keys new_hashes \<inter> dict_keys old_hashes))"
  have ch: "set ?ch = {p \<in> dict_keys old_hashes \<inter> dict_keys new_hashes.
                         dict_getitem old_hashes p \<noteq> dict_getitem new_hashes p}"
    using getitem_neq_iff [of _ old_hashes new_hashes]
    by (auto simp: set_iteration_set [OF assms])
  show thesis
  proof (rule that [OF compare_hashes_eq [OF assms]])
    show "set ?ch = {p \<in> dict_keys old_hashes \<inter> dict_keys new_hashes.
                         dict_getitem old_hashes p \<noteq> dict_getitem new_hashes p}"
      by (rule ch)
  qed (simp_all add: set_iteration_set [OF assms] set_iteration_distinct [OF assms])
qed

lemma scenario_keys:
  "dict_keys scenario_current - dict_keys scenario_baseline = {str ''c''}"
  "dict_keys scenario_baseline - dict_keys scenario_current = {str ''a''}"
  "dict_keys scenario_baseline \<inter> dict_keys scenario_current = {str ''b'', str ''d''}"
  by (auto simp: dict_keys_def scenario_baseline_def scenario_current_def str_def)

lemma scenario_changed:
  "{p \<in> {str ''b'', str ''d''}.
      dict_getitem scenario_baseline p \<noteq> dict_getitem scenario_current p} = {str ''d''}"
  by (auto simp: dict_getitem_def scenario_baseline_def scenario_current_def str_def)

section \<open>Facts about hashing and scanning\<close>

lemma read_loop_eq:
  assumes "streaming h" and "1 \<le> n"
  shows "read_loop n h rest s = h_update h s rest"
  using assms
proof (induction n h rest s rule: read_loop.induct)
  case (1 n h rest s)
  show ?case
  proof (cases "take n rest = []")
    case True
    with 1(3) have "rest = []" by auto
    with 1(2) show ?thesis by (subst read_loop.simps) (simp add: streaming_def)
  next
    case False
    from 1(2) obtain s' where u: "h_update h s (take n rest) = Inr s'"
      unfolding streaming_def by blast
    from 1(2) u have "h_update h s' (drop n rest) = h_update h s (take n rest @ drop n rest)"
      unfolding streaming_def by blast
    with 1(1) [OF refl False u 1(2) 1(3)]
    have "read_loop n h (drop n rest) s' = h_update h s rest"
      by simp
    with False u show ?thesis by (subst read_loop.simps) simp
  qed
qed

lemma hex_digit_lower: "d < 16 \<Longrightarrow> lower_hex (hex_digit d)"
  by (simp add: hex_digit_def lower_hex_def)

lemma hex_of_bytes_lower: "list_all lower_hex (hex_of_bytes bs)"
proof (induction bs)
  case Nil
  show ?case by (simp add: hex_of_bytes_def)
next
  case (Cons b bs)
  have "unat b < 256"
    using unsigned_less [of b, where ?'a = nat] by simp
  then have "unat b div 16 < 16" by simp
  then have "lower_hex (hex_digit (unat b div 16))" "lower_hex (hex_digit (unat b mod 16))"
    by (simp_all add: hex_digit_lower)
  with Cons show ?case by (simp add: hex_of_bytes_def)
qed

lemma length_hex_of_bytes: "length (hex_of_bytes bs) = 2 * length bs"
  by (induction bs) (simp_all add: hex_of_bytes_def)

text \<open>
  The encoding on four bytes: two digits for each byte, the high one first, the letters
  in lowercase.
\<close>

lemma hex_of_bytes_example: "hex_of_bytes [171, 1, 255, 16] = str ''ab01ff10''"
  by (simp add: hex_of_bytes_def hex_digit_def str_def)

lemma calculate_file_hash_with_streaming:
  assumes "attrs hashlib algorithm = Some (Returns h)"
    and "streaming h"
    and "open_rb fs file_path = Inr content"
    and "1 \<le> n"
  shows "calculate_file_hash_with n hashlib fs file_path algorithm
           = (case h_update h (h_new h) content of
                Inl e \<Rightarrow> Inl e
              | Inr s \<Rightarrow> hexdigest h s)"
  using assms(1,3) read_loop_eq [OF assms(2,4)]
  by (simp add: calculate_file_hash_with_def getattr_hashlib_def)

text \<open>
  What holds of the loop: for an attribute of hashlib that returns an object following
  the streaming contract and whose \<open>hexdigest\<close> needs no argument, and for a file that
  can be opened, reading with any buffer size of at least one byte feeds the whole
  content, the result is the lowercase hexadecimal encoding of the digest of that
  content, and it is the result of the source's 8192.
\<close>

lemma calculate_file_hash_chunking:
  assumes "attrs hashlib algorithm = Some (Returns h)"
    and "streaming h" and "h_hexdigest_error h = None"
    and "open_rb fs file_path = Inr content"
    and "1 \<le> n"
  shows "\<exists>s. h_update h (h_new h) content = Inr s \<and>
             calculate_file_hash_with n hashlib fs file_path algorithm
               = Inr (hex_of_bytes (h_digest h s)) \<and>
             calculate_file_hash hashlib fs file_path algorithm
               = calculate_file_hash_with n hashlib fs file_path algorithm \<and>
             list_all lower_hex (hex_of_bytes (h_digest h s))"
proof -
  from assms(2) obtain s where s: "h_update h (h_new h) content = Inr s"
    unfolding streaming_def by blast
  have any: "calculate_file_hash_with k hashlib fs file_path algorithm
           = Inr (hex_of_bytes (h_digest h s))" if "1 \<le> k" for k
    using calculate_file_hash_with_streaming [OF assms(1,2,4) that] s assms(3)
    by (simp add: hexdigest_def)
  have "calculate_file_hash hashlib fs file_path algorithm
               = calculate_file_hash_with n hashlib fs file_path algorithm"
    using any [OF assms(5)] any [of 8192] by (simp add: calculate_file_hash_def)
  with s any [OF assms(5)] hex_of_bytes_lower show ?thesis by blast
qed

lemma calculate_file_hash_hexdigest_raises:
  assumes "attrs hashlib algorithm = Some (Returns h)"
    and "streaming h" and "h_hexdigest_error h = Some e"
    and "open_rb fs file_path = Inr content"
  shows "calculate_file_hash hashlib fs file_path algorithm = Inl e"
proof -
  from assms(2) obtain s where s: "h_update h (h_new h) content = Inr s"
    unfolding streaming_def by blast
  have "(1::nat) \<le> 8192" by simp
  from calculate_file_hash_with_streaming [OF assms(1,2,4) this] s assms(3)
  show ?thesis by (simp add: hexdigest_def calculate_file_hash_def)
qed


lemma calculate_file_hash_no_attr:
  assumes "attrs hashlib algorithm = None"
  shows "calculate_file_hash hashlib fs file_path algorithm
           = Inl (AttributeError (str ''module '' @ [39] @ str ''hashlib'' @ [39]
                                    @ str '' has no attribute '' @ [39] @ algorithm @ [39]))"
  using assms
  by (simp add: calculate_file_hash_def calculate_file_hash_with_def getattr_hashlib_def)

text \<open>
  The two loops of \<open>scan_directory\<close> are one loop over the walked paths.
\<close>

lemma scan_files_paths:
  "scan_files hashlib stdout fs algorithm root names st
     = scan_paths hashlib stdout fs algorithm (map (path_join root) names) st"
proof (induction names arbitrary: st)
  case Nil
  show ?case by (cases st) simp
next
  case (Cons name names)
  show ?case
    by (cases st) (simp add: Cons.IH Let_def split: sum.split)
qed

lemma scan_paths_append:
  "scan_paths hashlib stdout fs algorithm (xs @ ys) st
     = (case scan_paths hashlib stdout fs algorithm xs st of
          (Inl raised, out) \<Rightarrow> (Inl raised, out)
        | (Inr file_hashes, out) \<Rightarrow> scan_paths hashlib stdout fs algorithm ys (file_hashes, out))"
proof (induction xs arbitrary: st)
  case Nil
  show ?case by (cases st) simp
next
  case (Cons x xs)
  show ?case
    by (cases st) (simp add: Cons.IH split: sum.split)
qed

lemma scan_walk_paths:
  "scan_walk hashlib stdout fs algorithm w st
     = scan_paths hashlib stdout fs algorithm
         (concat (map (\<lambda>(root, dirs, names). map (path_join root) names) w)) st"
proof (induction w arbitrary: st)
  case Nil
  show ?case by (cases st) simp
next
  case (Cons t w)
  obtain root dirs names where t: "t = (root, dirs, names)"
    by (cases t) auto
  show ?case
    by (cases st)
      (simp add: t Cons.IH scan_files_paths scan_paths_append split: prod.split sum.split)
qed

lemma scan_directory_paths:
  assumes "os_walk fs directory = Inr w"
  shows "scan_directory hashlib stdout fs directory algorithm
           = scan_paths hashlib stdout fs algorithm (walk_paths fs directory) ([], [])"
  using assms by (simp add: scan_directory_def walk_paths_def scan_walk_paths)

lemma scan_directory_walk_raises:
  assumes "os_walk fs directory = Inl e"
  shows "scan_directory hashlib stdout fs directory algorithm = (Inl e, [])"
  using assms by (simp add: scan_directory_def)

lemma walk_paths_walk_raises: "os_walk fs directory = Inl e \<Longrightarrow> walk_paths fs directory = []"
  by (simp add: walk_paths_def)
















lemma streaming_shake_like: "streaming shake_like"
  by (simp add: streaming_def shake_like_def sum8_def add.assoc)

lemma example_attrs:
  "attrs example_hashlib (str ''sum8'') = Some (Returns sum8)"
  "attrs example_hashlib (str ''shake_128'') = Some (Returns shake_like)"
  "attrs example_hashlib (str ''ripemd160'') = None"
  by (simp_all add: example_hashlib_def str_def)

lemma example_open:
  "open_rb example_fs (str ''d/a.txt'') = Inr [1, 2, 3]"
  "open_rb example_fs (str ''d/b.txt'')
     = Inl (OSError (str ''[Errno 13] Permission denied: '' @ [39] @ str ''d/b.txt'' @ [39]))"
  "open_rb example_fs (str ''d/sub/c.txt'') = Inr [255, 1]"
  "open_rb example_fs (str ''e/'' @ bad_name)
     = Inl (OSError (str ''[Errno 13] Permission denied: '' @ [39] @ str ''e/x''
                       @ [92] @ str ''udcff.txt'' @ [39]))"
  "open_rb example_fs (str ''e/y.txt'') = Inr [7]"
  by (simp_all add: example_fs_def bad_name_def str_def)

lemma example_os_walk:
  "\<exists>w. os_walk example_fs (str ''d'') = Inr w"
  "\<exists>w. os_walk example_fs (str ''e'') = Inr w"
  by (simp_all add: os_walk_def example_fs_def str_def)

lemma example_walk_paths:
  "walk_paths example_fs (str ''d'') = [str ''d/a.txt'', str ''d/b.txt'', str ''d/sub/c.txt'']"
  "walk_paths example_fs (str ''e'') = [str ''e/'' @ bad_name, str ''e/y.txt'']"
  by (simp_all add: walk_paths_def os_walk_def example_fs_def path_join_def bad_name_def str_def)



lemma utf8_stdout_ascii:
  "\<forall>c \<in> set line. c < 128 \<Longrightarrow> utf8_stdout line = None"
  by (auto simp add: utf8_stdout_def list_ex_iff high_surrogate_def low_surrogate_def)

section \<open>Facts about the JSON text of a snapshot\<close>

lemma hex_value_hex_digit: "d < 16 \<Longrightarrow> hex_value (hex_digit d) = Some d"
  by (simp add: hex_value_def hex_digit_def)

lemma length_hex4 [simp]: "length (hex4 n) = 4"
  by (simp add: hex4_def)

lemma hex4_value:
  assumes "(n::nat) < 65536"
  shows "((n div 4096 mod 16 * 16 + n div 256 mod 16) * 16 + n div 16 mod 16) * 16 + n mod 16 = n"
proof -
  let ?q1 = "n div 16"
  let ?q2 = "?q1 div 16"
  let ?q3 = "?q2 div 16"
  have d1: "n div 256 = ?q2" by (simp add: div_mult2_eq [symmetric])
  have d2: "n div 4096 = ?q3" by (simp add: div_mult2_eq [symmetric])
  from assms have "n div 4096 < 16" by simp
  then have small: "?q3 mod 16 = ?q3" by (simp add: d2)
  have e3: "?q3 * 16 + ?q2 mod 16 = ?q2" by (rule div_mult_mod_eq)
  have e2: "?q2 * 16 + ?q1 mod 16 = ?q1" by (rule div_mult_mod_eq)
  have e1: "?q1 * 16 + n mod 16 = n" by (rule div_mult_mod_eq)
  show ?thesis
    unfolding d1 d2 small e3 e2 e1 by (rule refl)
qed

lemma decode_uXXXX_hex4:
  assumes "n < 65536"
  shows "decode_uXXXX (hex4 n @ rest) = Some n"
proof -
  have h: "hex_value (hex_digit (n div 4096 mod 16)) = Some (n div 4096 mod 16)"
    "hex_value (hex_digit (n div 256 mod 16)) = Some (n div 256 mod 16)"
    "hex_value (hex_digit (n div 16 mod 16)) = Some (n div 16 mod 16)"
    "hex_value (hex_digit (n mod 16)) = Some (n mod 16)"
    by (simp_all add: hex_value_hex_digit)
  show ?thesis
    unfolding decode_uXXXX_def hex4_def
    by (simp only: append_Cons append_Nil list.case h prod.case option.case
        hex4_value [OF assms])
qed

lemma drop_hex4 [simp]:
  "drop 4 (hex4 n @ rest) = rest"
  "drop 6 (hex4 n @ rest) = drop 2 rest"
  by simp_all

lemma decode_escape_bmp:
  assumes "c < 65536" and "high_surrogate c \<Longrightarrow> no_low_escape rest"
  shows "decode_escape (117 # hex4 c @ rest) = Some (c, 5)"
proof (cases "high_surrogate c \<and> take 2 rest = [92, 117]")
  case True
  with assms(2) obtain u where "decode_uXXXX (drop 2 rest) = Some u" "\<not> low_surrogate u"
    by (auto simp: no_low_escape_def)
  with True show ?thesis
    by (simp add: decode_escape_def decode_uXXXX_hex4 [OF assms(1)])
next
  case False
  then show ?thesis
    by (auto simp: decode_escape_def decode_uXXXX_hex4 [OF assms(1)])
qed

lemma decode_escape_astral:
  assumes "65536 \<le> c" and "c < 1114112"
  shows "decode_escape (117 # hex4 (55296 + (c - 65536) div 1024 mod 1024) @ [92, 117]
            @ hex4 (56320 + (c - 65536) mod 1024) @ rest) = Some (c, 11)"
proof -
  let ?n = "c - 65536"
  let ?s1 = "55296 + ?n div 1024 mod 1024"
  let ?s2 = "56320 + ?n mod 1024"
  from assms have n: "?n < 1048576" by simp
  then have q: "?n div 1024 < 1024" by simp
  then have qm: "?n div 1024 mod 1024 = ?n div 1024" by simp
  have s1: "?s1 < 65536" "high_surrogate ?s1"
    using q by (simp_all add: qm high_surrogate_def)
  have s2: "?s2 < 65536" "low_surrogate ?s2"
    by (simp_all add: low_surrogate_def)
  have "?n div 1024 * 1024 + ?n mod 1024 = ?n" by (rule div_mult_mod_eq)
  with assms(1) have join: "65536 + ((?s1 - 55296) * 1024 + (?s2 - 56320)) = c"
    by (simp add: qm)
  have d1: "decode_uXXXX (hex4 ?s1 @ [92, 117] @ hex4 ?s2 @ rest) = Some ?s1"
    by (rule decode_uXXXX_hex4 [OF s1(1)])
  have d2: "decode_uXXXX (hex4 ?s2 @ rest) = Some ?s2"
    by (rule decode_uXXXX_hex4 [OF s2(1)])
  have t: "take 2 (drop 4 (hex4 ?s1 @ [92, 117] @ hex4 ?s2 @ rest)) = [92, 117]"
    "drop 6 (hex4 ?s1 @ [92, 117] @ hex4 ?s2 @ rest) = hex4 ?s2 @ rest"
    by simp_all
  show ?thesis
    unfolding decode_escape_def
    by (simp only: list.case d1 d2 t option.case s1(2) s2(2) join simp_thms if_True if_False)
qed

lemma scanstring_escape_char:
  assumes "code_point c" and "high_surrogate c \<Longrightarrow> no_low_escape rest"
  shows "scanstring (escape_char c @ rest) = prepend c (scanstring rest)"
proof -
  consider (special) "c \<in> {34, 92, 8, 12, 10, 13, 9}"
    | (plain) "c \<notin> {34, 92, 8, 12, 10, 13, 9}" "32 \<le> c" "c \<le> 126"
    | (bmp) "c \<notin> {34, 92, 8, 12, 10, 13, 9}" "\<not> (32 \<le> c \<and> c \<le> 126)" "c < 65536"
    | (astral) "65536 \<le> c"
    by fastforce
  then show ?thesis
  proof cases
    case special
    then show ?thesis
      by (auto simp: escape_char_def decode_escape_def backslash_def)
  next
    case plain
    then show ?thesis
      by (simp add: escape_char_def)
  next
    case bmp
    from bmp have e: "escape_char c = [92, 117] @ hex4 c"
      by (simp add: escape_char_def)
    show ?thesis
      unfolding e using decode_escape_bmp [OF bmp(3) assms(2)]
      by simp
  next
    case astral
    from astral have e: "escape_char c = [92, 117] @ hex4 (55296 + (c - 65536) div 1024 mod 1024)
        @ [92, 117] @ hex4 (56320 + (c - 65536) mod 1024)"
      by (simp add: escape_char_def)
    from assms(1) have "c < 1114112" by (simp add: code_point_def)
    from decode_escape_astral [OF astral this, of rest]
    show ?thesis
      unfolding e by simp
  qed
qed

lemma no_low_escape_quote: "no_low_escape (34 # rest)"
  by (simp add: no_low_escape_def)

lemma no_low_escape_escape_char:
  assumes "code_point c" and "\<not> low_surrogate c"
  shows "no_low_escape (escape_char c @ rest)"
proof -
  consider (special) "c \<in> {34, 92, 8, 12, 10, 13, 9}"
    | (plain) "c \<notin> {34, 92, 8, 12, 10, 13, 9}" "32 \<le> c" "c \<le> 126"
    | (bmp) "c \<notin> {34, 92, 8, 12, 10, 13, 9}" "\<not> (32 \<le> c \<and> c \<le> 126)" "c < 65536"
    | (astral) "65536 \<le> c"
    by fastforce
  then show ?thesis
  proof cases
    case special
    then have "take 2 (escape_char c @ rest) \<noteq> [92, 117]"
      by (elim insertE emptyE) (simp_all add: escape_char_def)
    then show ?thesis
      by (simp add: no_low_escape_def)
  next
    case plain
    then have "take 2 (escape_char c @ rest) \<noteq> [92, 117]"
      by (simp add: escape_char_def)
    then show ?thesis
      by (simp add: no_low_escape_def)
  next
    case bmp
    from bmp have e: "escape_char c = [92, 117] @ hex4 c"
      by (simp add: escape_char_def)
    have d: "drop 2 (escape_char c @ rest) = hex4 c @ rest"
      by (simp add: e)
    have dec: "decode_uXXXX (hex4 c @ rest) = Some c"
      by (rule decode_uXXXX_hex4 [OF bmp(3)])
    show ?thesis
      unfolding no_low_escape_def d dec using assms(2) by simp
  next
    case astral
    let ?s1 = "55296 + (c - 65536) div 1024 mod 1024"
    let ?tail = "[92, 117] @ hex4 (56320 + (c - 65536) mod 1024) @ rest"
    from astral have e: "escape_char c = [92, 117] @ hex4 ?s1
        @ [92, 117] @ hex4 (56320 + (c - 65536) mod 1024)"
      by (simp add: escape_char_def)
    have "(c - 65536) div 1024 mod 1024 < 1024" by simp
    then have s1: "?s1 < 65536" "\<not> low_surrogate ?s1"
      by (simp_all add: low_surrogate_def)
    have d: "drop 2 (escape_char c @ rest) = hex4 ?s1 @ ?tail"
      by (simp add: e)
    have dec: "decode_uXXXX (hex4 ?s1 @ ?tail) = Some ?s1"
      by (rule decode_uXXXX_hex4 [OF s1(1)])
    show ?thesis
      unfolding no_low_escape_def d dec using s1(2) by simp
  qed
qed

lemma scanstring_encoded:
  assumes "json_safe s"
  shows "scanstring (concat (map escape_char s) @ 34 # rest) = Some (s, rest)"
  using assms
proof (induction s)
  case Nil
  show ?case by simp
next
  case (Cons c s)
  from Cons.prems have c: "code_point c" and s: "json_safe s"
    by (cases s; simp add: json_safe_def)+
  have look: "no_low_escape (concat (map escape_char s) @ 34 # rest)" if "high_surrogate c"
  proof (cases s)
    case Nil
    then show ?thesis by (simp add: no_low_escape_quote)
  next
    case (Cons c' s')
    with Cons.prems that have "code_point c'" "\<not> low_surrogate c'"
      by (simp_all add: json_safe_def)
    then show ?thesis
      using no_low_escape_escape_char [of c' "concat (map escape_char s') @ 34 # rest"]
      by (simp add: Cons)
  qed
  have "scanstring (escape_char c @ concat (map escape_char s) @ 34 # rest)
          = prepend c (scanstring (concat (map escape_char s) @ 34 # rest))"
    by (rule scanstring_escape_char [OF c look])
  with Cons.IH [OF s] show ?case
    by (simp add: prepend_def)
qed

lemma skip_ws_simps [simp]:
  "skip_ws (58 # s) = 58 # s"
  "skip_ws (34 # s) = 34 # s"
  "skip_ws (44 # s) = 44 # s"
  "skip_ws (125 # s) = 125 # s"
  "skip_ws (123 # s) = 123 # s"
  "skip_ws (32 # s) = skip_ws s"
  "skip_ws (10 # s) = skip_ws s"
  "skip_ws [] = []"
  by (simp_all add: skip_ws_def whitespace_def)

lemma skip_ws_newline_indent [simp]: "skip_ws (newline_indent @ s) = skip_ws s"
  by (simp add: newline_indent_def)

lemma parse_pairs_dump:
  assumes "list_all (\<lambda>(k, v). json_safe k \<and> json_safe v) ((k, v) # items)"
  shows "parse_pairs (concat (map escape_char k) @ [34] @ [58, 32] @ encode_basestring_ascii v
            @ dump_items False items @ [10, 125] @ rest) = Some ((k, v) # items, rest)"
  using assms
proof (induction items arbitrary: k v)
  case Nil
  then have k: "json_safe k" and v: "json_safe v" by simp_all
  show ?case
    by (subst parse_pairs.simps)
      (simp add: scanstring_encoded [OF k] scanstring_encoded [OF v] encode_basestring_ascii_def)
next
  case (Cons kv items)
  obtain k2 v2 where kv: "kv = (k2, v2)" by (cases kv) auto
  from Cons.prems have k: "json_safe k" and v: "json_safe v"
    and rest: "list_all (\<lambda>(k, v). json_safe k \<and> json_safe v) ((k2, v2) # items)"
    by (simp_all add: kv)
  from Cons.IH [OF rest]
  have ih: "parse_pairs (concat (map escape_char k2) @ 34 # 58 # 32 # 34 #
              concat (map escape_char v2) @ 34 # dump_items False items @ 10 # 125 # rest)
            = Some ((k2, v2) # items, rest)"
    by (simp add: encode_basestring_ascii_def)
  show ?case
    by (subst parse_pairs.simps)
      (simp add: kv scanstring_encoded [OF k] scanstring_encoded [OF v]
        encode_basestring_ascii_def ih)
qed

lemma update_new_key: "k \<notin> fst ` set al \<Longrightarrow> AList.update k v al = al @ [(k, v)]"
  by (induction al) auto

lemma fold_setitem_distinct:
  "distinct (map fst (acc @ ps))
     \<Longrightarrow> fold (\<lambda>(k, v) d. dict_setitem d k v) ps acc = acc @ ps"
proof (induction ps arbitrary: acc)
  case Nil
  show ?case by simp
next
  case (Cons p ps)
  obtain k v where p: "p = (k, v)" by (cases p) auto
  from Cons.prems have new: "k \<notin> fst ` set acc" by (auto simp: p)
  from Cons.prems have "distinct (map fst ((acc @ [(k, v)]) @ ps))" by (simp add: p)
  from Cons.IH [OF this] show ?case
    by (simp add: p dict_setitem_def update_new_key [OF new])
qed

lemma dict_of_pairs_distinct: "distinct (map fst ps) \<Longrightarrow> dict_of_pairs ps = ps"
  using fold_setitem_distinct [of "[]" ps] by (simp add: dict_of_pairs_def)

lemma json_loads_json_dump:
  assumes "snapshot_safe d"
  shows "json_loads (json_dump d) = Some d"
proof (cases d)
  case Nil
  then show ?thesis
    by (simp add: json_loads_def json_dump_def parse_object_def)
next
  case (Cons kv items)
  obtain k v where kv: "kv = (k, v)" by (cases kv) auto
  from assms have safe: "list_all (\<lambda>(k, v). json_safe k \<and> json_safe v) ((k, v) # items)"
    and dist: "distinct (map fst ((k, v) # items))"
    by (simp_all add: snapshot_safe_def Cons kv)
  from parse_pairs_dump [OF safe, of "[]"]
  have pp: "parse_pairs (concat (map escape_char k) @ 34 # 58 # 32 # 34 #
              concat (map escape_char v) @ 34 # dump_items False items @ [10, 125])
            = Some ((k, v) # items, [])"
    by (simp add: encode_basestring_ascii_def)
  show ?thesis
    by (simp add: json_loads_def json_dump_def parse_object_def Cons kv
        encode_basestring_ascii_def pp dict_of_pairs_distinct [OF dist])
qed

lemma json_dump_surrogates:
  "json_dump surrogate_snapshot = json_dump [([65536], str ''00'')]"
  by (simp add: surrogate_snapshot_def json_dump_def encode_basestring_ascii_def escape_char_def)

lemma snapshot_safe_astral: "snapshot_safe [([65536], str ''00'')]"
  by (simp add: snapshot_safe_def json_safe_def code_point_def str_def
      high_surrogate_def low_surrogate_def)

lemma snapshot_safe_tricky: "snapshot_safe tricky_snapshot"
  by (simp add: snapshot_safe_def tricky_snapshot_def json_safe_def code_point_def str_def
      high_surrogate_def low_surrogate_def)

lemma load_after_save:
  assumes "save_hashes fs hashes db_path = Inr fs'"
  shows "load_hashes fs' db_path
           = (case read_error fs db_path of
                Some e \<Rightarrow> Raised e
              | None \<Rightarrow> (case json_loads (json_dump hashes) of
                           None \<Rightarrow> NotSnapshot
                         | Some d \<Rightarrow> Snapshot d))"
  using assms
  by (auto simp: save_hashes_def load_hashes_def split: option.splits)

section \<open>Facts about the command line\<close>

lemma set_iteration_empty:
  assumes "set_iteration it"
  shows "it {} = []"
proof -
  from assms have "finite {} \<longrightarrow> set (it {}) = {} \<and> distinct (it {})"
    unfolding set_iteration_def by blast
  then show ?thesis by simp
qed

lemma compare_hashes_empty_baseline:
  assumes "set_iteration it"
  shows "compare_hashes it [] new_hashes = Inr (it (dict_keys new_hashes), [], [])"
  unfolding compare_hashes_eq [OF assms]
  by (simp add: dict_keys_def set_iteration_empty [OF assms])

lemma compare_hashes_empty_current:
  assumes "set_iteration it"
  shows "compare_hashes it old_hashes [] = Inr ([], it (dict_keys old_hashes), [])"
  unfolding compare_hashes_eq [OF assms]
  by (simp add: dict_keys_def set_iteration_empty [OF assms])

lemma set_iteration_keys_Nil:
  assumes "set_iteration it"
  shows "(it (dict_keys d) = []) = (d = [])"
proof -
  from assms finite_dict_keys [of d] have "set (it (dict_keys d)) = dict_keys d"
    unfolding set_iteration_def by blast
  then have "(it (dict_keys d) = []) = (dict_keys d = {})"
    by (metis set_empty)
  then show ?thesis by (simp add: dict_keys_def)
qed

lemma os_walk_unreadable:
  assumes "root_unreadable fs directory"
  shows "os_walk fs directory = Inr []"
proof (cases "tree_at fs directory")
  case (Inl e)
  with assms show ?thesis by (simp add: root_unreadable_def os_walk_def)
next
  case (Inr n)
  show ?thesis
  proof (cases n)
    case File
    with Inr show ?thesis by (simp add: os_walk_def)
  next
    case (Dir listing)
    with Inr assms obtain m where "listing = Inl m"
      by (cases listing) (simp_all add: root_unreadable_def)
    with Inr Dir show ?thesis by (simp add: os_walk_def)
  qed
qed

lemma scan_directory_unreadable:
  "root_unreadable fs directory
     \<Longrightarrow> scan_directory hashlib stdout fs directory algorithm = (Inr [], [])"
  by (simp add: scan_directory_def os_walk_unreadable)

lemma print_lines_accepted:
  "\<forall>l \<in> set lines. stdout l = None \<Longrightarrow> print_lines stdout out lines = (None, out @ lines)"
  by (induction lines arbitrary: out) (simp_all add: py_print_def)

lemma json_dump_empty: "json_dump [] = str ''{}''"
  by (simp add: json_dump_def str_def)

lemma str_append: "str a @ str b = str (a @ b)"
  by (simp add: str_def)

lemma example_missing:
  "tree_at example_fs (str ''missing'')
     = Inl (OSError (str ''[Errno 2] No such file or directory: '' @ [39] @ str ''missing'' @ [39]))"
  by (simp add: example_fs_def str_def)

lemma example_root_unreadable: "root_unreadable example_fs (str ''missing'')"
  by (simp add: root_unreadable_def example_missing)

lemma example_parse_args: "parse_args example_hashlib (missing_args i) = Inr (str ''sum8'')"
  by (simp add: parse_args_def missing_args_def example_hashlib_def)

lemma main_rejects_unknown_choice:
  assumes "arg_algorithm a = Some name" and "name \<notin> algorithms_available hashlib"
  shows "main it hashlib stdout fs a = (SystemExit 2, [], fs)"
  using assms by (simp add: main_def parse_args_def)

lemma example_scan_no_attribute:
  "scan_directory example_hashlib utf8_stdout example_fs (str ''d'') (str ''ripemd160'')
     = (Inr [],
        [str ''Error hashing d/a.txt: module '' @ [39] @ str ''hashlib'' @ [39]
           @ str '' has no attribute '' @ [39] @ str ''ripemd160'' @ [39],
         str ''Error hashing d/b.txt: module '' @ [39] @ str ''hashlib'' @ [39]
           @ str '' has no attribute '' @ [39] @ str ''ripemd160'' @ [39],
         str ''Error hashing d/sub/c.txt: module '' @ [39] @ str ''hashlib'' @ [39]
           @ str '' has no attribute '' @ [39] @ str ''ripemd160'' @ [39]])"
proof -
  let ?e = "AttributeError (str ''module '' @ [39] @ str ''hashlib'' @ [39]
              @ str '' has no attribute '' @ [39] @ str ''ripemd160'' @ [39])"
  from example_os_walk(1) obtain w where w: "os_walk example_fs (str ''d'') = Inr w" ..
  have h: "calculate_file_hash example_hashlib example_fs p (str ''ripemd160'') = Inl ?e" for p
    by (rule calculate_file_hash_no_attr [OF example_attrs(3)])
  have a: "utf8_stdout (error_line (str ''d/a.txt'') ?e) = None"
    by (rule utf8_stdout_ascii) (simp add: error_line_def str_def)
  have b: "utf8_stdout (error_line (str ''d/b.txt'') ?e) = None"
    by (rule utf8_stdout_ascii) (simp add: error_line_def str_def)
  have c: "utf8_stdout (error_line (str ''d/sub/c.txt'') ?e) = None"
    by (rule utf8_stdout_ascii) (simp add: error_line_def str_def)
  have "scan_paths example_hashlib utf8_stdout example_fs (str ''ripemd160'')
          [str ''d/a.txt'', str ''d/b.txt'', str ''d/sub/c.txt''] ([], [])
      = (Inr [], (([] @ [error_line (str ''d/a.txt'') ?e]) @ [error_line (str ''d/b.txt'') ?e])
                   @ [error_line (str ''d/sub/c.txt'') ?e])"
    by (simp only: scan_paths.simps h sum.case py_print_def a b c option.case)
  then show ?thesis
    unfolding scan_directory_paths [OF w] example_walk_paths
    by (simp add: error_line_def str_def)
qed

section \<open>The three results of compare_hashes\<close>

text \<open>
  Claim C1. For any two snapshots, compare_hashes returns (it raises nothing) three
  lists without repetitions: the added files are the keys of the new snapshot that are
  not keys of the old one, the removed files are the keys of the old snapshot that are
  not keys of the new one, and the changed files are the common keys whose digests
  differ. A common key with equal digests is in none of the three.
\<close>

theorem compare_hashes_sets:
  assumes "set_iteration it"
  shows "\<exists>added removed changed.
           compare_hashes it old_hashes new_hashes = Inr (added, removed, changed) \<and>
           set added = dict_keys new_hashes - dict_keys old_hashes \<and>
           set removed = dict_keys old_hashes - dict_keys new_hashes \<and>
           set changed = {p \<in> dict_keys old_hashes \<inter> dict_keys new_hashes.
                            dict_getitem old_hashes p \<noteq> dict_getitem new_hashes p} \<and>
           {p. unchanged old_hashes new_hashes p}
             \<inter> (set added \<union> set removed \<union> set changed) = {} \<and>
           distinct added \<and> distinct removed \<and> distinct changed"
proof -
  from compare_hashes_char [OF assms, of old_hashes new_hashes]
  obtain added removed changed where r:
    "compare_hashes it old_hashes new_hashes = Inr (added, removed, changed)"
    "set added = dict_keys new_hashes - dict_keys old_hashes"
    "set removed = dict_keys old_hashes - dict_keys new_hashes"
    "set changed = {p \<in> dict_keys old_hashes \<inter> dict_keys new_hashes.
                      dict_getitem old_hashes p \<noteq> dict_getitem new_hashes p}"
    "distinct added" "distinct removed" "distinct changed"
    by blast
  have "{p. unchanged old_hashes new_hashes p}
             \<inter> (set added \<union> set removed \<union> set changed) = {}"
    unfolding r by (auto simp: unchanged_def)
  with r show ?thesis by (intro exI conjI)
qed

text \<open>
  In the scenario, c is added, a is removed and d is changed.
\<close>

theorem compare_hashes_sets_witness:
  "\<exists>added removed changed.
     compare_hashes sorted_list_of_set scenario_baseline scenario_current
       = Inr (added, removed, changed) \<and>
     set added = {str ''c''} \<and> set removed = {str ''a''} \<and> set changed = {str ''d''}"
proof -
  from compare_hashes_sets [OF set_iteration_sorted, of scenario_baseline scenario_current]
  obtain added removed changed where
    "compare_hashes sorted_list_of_set scenario_baseline scenario_current
       = Inr (added, removed, changed)"
    "set added = {str ''c''}" "set removed = {str ''a''}" "set changed = {str ''d''}"
    unfolding scenario_keys scenario_changed by (elim exE conjE) (rule that)
  then show ?thesis by (intro exI conjI)
qed

text \<open>
  Claim C2. Every path of the old or the new snapshot is in exactly one of the four
  classes added, removed, changed and unchanged; it is in none of the three returned
  lists exactly when it is unchanged, that is, in both snapshots with equal digests.
\<close>

theorem compare_hashes_classifies:
  assumes "set_iteration it"
    and "p \<in> dict_keys old_hashes \<union> dict_keys new_hashes"
  shows "\<exists>added removed changed.
           compare_hashes it old_hashes new_hashes = Inr (added, removed, changed) \<and>
           length (filter id [p \<in> set added, p \<in> set removed, p \<in> set changed,
                              unchanged old_hashes new_hashes p]) = 1 \<and>
           (p \<notin> set added \<union> set removed \<union> set changed)
             = unchanged old_hashes new_hashes p"
proof -
  from assms(1) obtain added removed changed where r:
    "compare_hashes it old_hashes new_hashes = Inr (added, removed, changed)"
    and s: "set added = dict_keys new_hashes - dict_keys old_hashes"
    "set removed = dict_keys old_hashes - dict_keys new_hashes"
    "set changed = {p \<in> dict_keys old_hashes \<inter> dict_keys new_hashes.
                      dict_getitem old_hashes p \<noteq> dict_getitem new_hashes p}"
    and d: "distinct added" "distinct removed" "distinct changed"
    by (rule compare_hashes_char)
  have one: "length (filter id [p \<in> set added, p \<in> set removed, p \<in> set changed,
                              unchanged old_hashes new_hashes p]) = 1"
    using assms(2) unfolding s unchanged_def by auto
  have none: "(p \<notin> set added \<union> set removed \<union> set changed)
             = unchanged old_hashes new_hashes p"
    using assms(2) unfolding s unchanged_def by auto
  from r one none show ?thesis by (intro exI conjI)
qed

text \<open>
  In the scenario d is in both snapshots with different digests: it is changed, and in
  no other class.
\<close>

theorem compare_hashes_classifies_witness:
  "set_iteration (sorted_list_of_set :: pystr set \<Rightarrow> pystr list) \<and>
   str ''d'' \<in> dict_keys scenario_baseline \<union> dict_keys scenario_current \<and>
   (\<exists>added removed changed.
      compare_hashes sorted_list_of_set scenario_baseline scenario_current
        = Inr (added, removed, changed) \<and>
      length (filter id [str ''d'' \<in> set added, str ''d'' \<in> set removed,
                         str ''d'' \<in> set changed,
                         unchanged scenario_baseline scenario_current (str ''d'')]) = 1 \<and>
      (str ''d'' \<notin> set added \<union> set removed \<union> set changed)
        = unchanged scenario_baseline scenario_current (str ''d''))"
proof -
  have m: "str ''d'' \<in> dict_keys scenario_baseline \<union> dict_keys scenario_current"
    by (simp add: dict_keys_def scenario_baseline_def)
  from set_iteration_sorted m compare_hashes_classifies [OF set_iteration_sorted m]
  show ?thesis by (intro conjI)
qed

text \<open>
  Claim C3. The three lists returned by compare_hashes are pairwise disjoint.
\<close>

theorem compare_hashes_disjoint:
  assumes "set_iteration it"
  shows "\<exists>added removed changed.
           compare_hashes it old_hashes new_hashes = Inr (added, removed, changed) \<and>
           set added \<inter> set removed = {} \<and>
           set added \<inter> set changed = {} \<and>
           set removed \<inter> set changed = {}"
proof -
  from assms obtain added removed changed where r:
    "compare_hashes it old_hashes new_hashes = Inr (added, removed, changed)"
    and s: "set added = dict_keys new_hashes - dict_keys old_hashes"
    "set removed = dict_keys old_hashes - dict_keys new_hashes"
    "set changed = {p \<in> dict_keys old_hashes \<inter> dict_keys new_hashes.
                      dict_getitem old_hashes p \<noteq> dict_getitem new_hashes p}"
    and d: "distinct added" "distinct removed" "distinct changed"
    by (rule compare_hashes_char)
  have "set added \<inter> set removed = {}" "set added \<inter> set changed = {}"
    "set removed \<inter> set changed = {}"
    unfolding s by auto
  with r show ?thesis by (intro exI conjI)
qed

text \<open>
  The three lists of the scenario.
\<close>

theorem compare_hashes_disjoint_witness:
  "set_iteration (sorted_list_of_set :: pystr set \<Rightarrow> pystr list) \<and>
   (\<exists>added removed changed.
      compare_hashes sorted_list_of_set scenario_baseline scenario_current
        = Inr (added, removed, changed) \<and>
      set added \<inter> set removed = {} \<and>
      set added \<inter> set changed = {} \<and>
      set removed \<inter> set changed = {})"
proof -
  from set_iteration_sorted
    compare_hashes_disjoint [OF set_iteration_sorted, of scenario_baseline scenario_current]
  show ?thesis by (intro conjI)
qed

section \<open>Hashing a file\<close>

text \<open>
  Claim C5 speaks of every file content and every supported algorithm. The algorithms
  the program supports are those its argument parser accepts, the names in
  \<open>hashlib.algorithms_available\<close>. In the example hashlib, as in CPython,
  \<open>shake_128\<close> is one of them, and the \<open>hexdigest\<close> of its objects needs a length:
  the parser accepts the name, the file \<open>d/a.txt\<close> can be read, and
  calculate_file_hash raises TypeError where the claim has it return the digits of
  the digest.
\<close>

theorem shake_128_is_a_choice_and_fails:
  "str ''shake_128'' \<in> algorithms_available example_hashlib \<and>
   parse_args example_hashlib (init_args (str ''shake_128'')) = Inr (str ''shake_128'') \<and>
   open_rb example_fs (str ''d/a.txt'') = Inr [1, 2, 3] \<and>
   calculate_file_hash example_hashlib example_fs (str ''d/a.txt'') (str ''shake_128'')
     = Inl (TypeError (str ''hexdigest() missing required argument '' @ [39]
                         @ str ''length'' @ [39] @ str '' (pos 1)''))"
proof -
  have c: "str ''shake_128'' \<in> algorithms_available example_hashlib"
    by (simp add: example_hashlib_def)
  have e: "h_hexdigest_error shake_like
     = Some (TypeError (str ''hexdigest() missing required argument '' @ [39]
                         @ str ''length'' @ [39] @ str '' (pos 1)''))"
    by (simp add: shake_like_def)
  from c show ?thesis
    by (simp add: parse_args_def init_args_def example_open(1)
          calculate_file_hash_hexdigest_raises
            [OF example_attrs(2) streaming_shake_like e example_open(1)])
qed

section \<open>Scanning a directory\<close>







section \<open>Saving and loading the baseline\<close>

text \<open>
  Claim C9 says that every snapshot is loaded as it was saved. The snapshot whose key is
  a high surrogate followed by a low surrogate is saved with the two escapes of the
  character \<open>0x10000\<close> and loaded with that character as its key.
\<close>

theorem save_load_surrogate_pair:
  "\<exists>fs'. save_hashes example_fs surrogate_snapshot HASH_DB = Inr fs' \<and>
         load_hashes fs' HASH_DB = Snapshot [([65536], str ''00'')] \<and>
         Snapshot [([65536], str ''00'')] \<noteq> Snapshot surrogate_snapshot"
proof -
  have s: "save_hashes example_fs surrogate_snapshot HASH_DB
             = Inr (example_fs\<lparr>text_files :=
                      (text_files example_fs)(HASH_DB \<mapsto> json_dump surrogate_snapshot)\<rparr>)"
    by (simp add: save_hashes_def example_fs_def)
  have r: "read_error example_fs HASH_DB = None"
    by (simp add: example_fs_def)
  have "(case read_error example_fs HASH_DB of
           Some e \<Rightarrow> Raised e
         | None \<Rightarrow> (case json_loads (json_dump surrogate_snapshot) of
                      None \<Rightarrow> NotSnapshot
                    | Some d \<Rightarrow> Snapshot d)) = Snapshot [([65536], str ''00'')]"
    by (simp only: r json_dump_surrogates option.case
        json_loads_json_dump [OF snapshot_safe_astral])
  with load_after_save [OF s]
  have l: "load_hashes (example_fs\<lparr>text_files :=
                      (text_files example_fs)(HASH_DB \<mapsto> json_dump surrogate_snapshot)\<rparr>) HASH_DB
             = Snapshot [([65536], str ''00'')]"
    by (rule trans)
  have n: "Snapshot [([65536], str ''00'')] \<noteq> Snapshot surrogate_snapshot"
    by (simp add: surrogate_snapshot_def)
  from s l n show ?thesis by (intro exI conjI)
qed

text \<open>
  Claim C9, amended. A snapshot with distinct keys in whose strings no high surrogate is
  followed at once by a low surrogate is loaded as it was saved, when save_hashes
  succeeds and the file can be opened for reading.
\<close>

theorem save_load_round_trip:
  assumes "snapshot_safe hashes"
    and "save_hashes fs hashes db_path = Inr fs'"
    and "read_error fs db_path = None"
  shows "load_hashes fs' db_path = Snapshot hashes"
  unfolding load_after_save [OF assms(2)]
  by (simp add: assms(3) json_loads_json_dump [OF assms(1)])

text \<open>
  The second example snapshot, with a lone surrogate, a quote, a backslash, a line feed
  and characters outside ASCII in a key, comes back unchanged.
\<close>

theorem save_load_round_trip_witness:
  "snapshot_safe tricky_snapshot \<and>
   read_error example_fs HASH_DB = None \<and>
   (\<exists>fs'. save_hashes example_fs tricky_snapshot HASH_DB = Inr fs' \<and>
          load_hashes fs' HASH_DB = Snapshot tricky_snapshot)"
proof -
  have s: "save_hashes example_fs tricky_snapshot HASH_DB
             = Inr (example_fs\<lparr>text_files :=
                      (text_files example_fs)(HASH_DB \<mapsto> json_dump tricky_snapshot)\<rparr>)"
    by (simp add: save_hashes_def example_fs_def)
  have r: "read_error example_fs HASH_DB = None"
    by (simp add: example_fs_def)
  from snapshot_safe_tricky r s save_load_round_trip [OF snapshot_safe_tricky s r]
  show ?thesis by (intro exI conjI)
qed

text \<open>
  Claim C8. When no file is at the store path, load_hashes returns the empty snapshot
  and raises nothing, whatever opening the path would do; compare_hashes of that
  baseline and any current snapshot returns every current key as added, and nothing as
  removed or changed.
\<close>

theorem load_hashes_no_baseline:
  assumes "text_files fs db_path = None" and "set_iteration it"
  shows "\<exists>baseline added.
           load_hashes fs db_path = Snapshot baseline \<and> baseline = [] \<and>
           compare_hashes it baseline new_hashes = Inr (added, [], []) \<and>
           set added = dict_keys new_hashes \<and> distinct added"
proof -
  have l: "load_hashes fs db_path = Snapshot []"
    using assms(1) by (simp add: load_hashes_def)
  have s: "set (it (dict_keys new_hashes)) = dict_keys new_hashes"
    "distinct (it (dict_keys new_hashes))"
    using assms(2) by (simp_all add: set_iteration_def finite_dict_keys)
  from l refl compare_hashes_empty_baseline [OF assms(2)] s show ?thesis
    by (intro exI conjI)
qed

text \<open>
  The example file system has no baseline: the three paths of the current scenario are
  added.
\<close>

theorem load_hashes_no_baseline_witness:
  "text_files example_fs HASH_DB = None \<and>
   load_hashes example_fs HASH_DB = Snapshot [] \<and>
   (\<exists>added. compare_hashes sorted_list_of_set [] scenario_current = Inr (added, [], []) \<and>
            set added = {str ''b'', str ''c'', str ''d''})"
proof -
  have n: "text_files example_fs HASH_DB = None"
    by (simp add: example_fs_def)
  have k: "dict_keys scenario_current = {str ''b'', str ''c'', str ''d''}"
    by (simp add: dict_keys_def scenario_current_def)
  from load_hashes_no_baseline [OF n set_iteration_sorted, of scenario_current]
  obtain baseline added where
    "load_hashes example_fs HASH_DB = Snapshot baseline" "baseline = []"
    "compare_hashes sorted_list_of_set baseline scenario_current = Inr (added, [], [])"
    "set added = {str ''b'', str ''c'', str ''d''}"
    unfolding k by (elim exE conjE) (rule that)
  then have
    "load_hashes example_fs HASH_DB = Snapshot []"
    "compare_hashes sorted_list_of_set [] scenario_current = Inr (added, [], [])"
    "set added = {str ''b'', str ''c'', str ''d''}"
    by simp_all
  with n show ?thesis by (intro exI conjI)
qed

section \<open>Errors that the specification calls fatal\<close>

text \<open>
  Claim C6 says that an algorithm name outside the supported set ends the program
  before any scanning, and that no file is hashed with a name that is not recognised.
  main checks the name against \<open>hashlib.algorithms_available\<close>, and
  calculate_file_hash looks it up as an attribute of the module: the two sets differ.
  The example hashlib lists \<open>ripemd160\<close> and has no attribute of that name, as
  CPython with OpenSSL does. With that name and --init on the directory \<open>d\<close>, main
  passes the check, tries to hash each of the three files, prints the three
  AttributeErrors in the middle of the scan, saves the empty snapshot as the baseline
  and returns normally.
\<close>

theorem available_algorithm_fails_mid_scan:
  "str ''ripemd160'' \<in> algorithms_available example_hashlib \<and>
   attrs example_hashlib (str ''ripemd160'') = None \<and>
   main sorted_list_of_set example_hashlib utf8_stdout example_fs (init_args (str ''ripemd160''))
     = (Returned,
        [str ''Initializing hash database for d...'',
         str ''Error hashing d/a.txt: module '' @ [39] @ str ''hashlib'' @ [39]
           @ str '' has no attribute '' @ [39] @ str ''ripemd160'' @ [39],
         str ''Error hashing d/b.txt: module '' @ [39] @ str ''hashlib'' @ [39]
           @ str '' has no attribute '' @ [39] @ str ''ripemd160'' @ [39],
         str ''Error hashing d/sub/c.txt: module '' @ [39] @ str ''hashlib'' @ [39]
           @ str '' has no attribute '' @ [39] @ str ''ripemd160'' @ [39],
         str ''Initialization complete. Hash database saved.''],
        example_fs\<lparr>text_files := (text_files example_fs)(HASH_DB \<mapsto> str ''{}'')\<rparr>)"
proof -
  have c: "str ''ripemd160'' \<in> algorithms_available example_hashlib"
    by (simp add: example_hashlib_def)
  then have p: "parse_args example_hashlib (init_args (str ''ripemd160'')) = Inr (str ''ripemd160'')"
    by (simp add: parse_args_def init_args_def)
  have d: "arg_directory (init_args (str ''ripemd160'')) = str ''d''"
    "arg_init (init_args (str ''ripemd160''))"
    by (simp_all add: init_args_def)
  have w: "write_error example_fs HASH_DB = None"
    by (simp add: example_fs_def)
  have i: "utf8_stdout (str ''Initializing hash database for '' @ str ''d'' @ str ''...'') = None"
    by (rule utf8_stdout_ascii) (simp add: str_def)
  have f: "utf8_stdout (str ''Initialization complete. Hash database saved.'') = None"
    by (rule utf8_stdout_ascii) (simp add: str_def)
  have m: "main sorted_list_of_set example_hashlib utf8_stdout example_fs (init_args (str ''ripemd160''))
     = (Returned,
        [str ''Initializing hash database for d...'',
         str ''Error hashing d/a.txt: module '' @ [39] @ str ''hashlib'' @ [39]
           @ str '' has no attribute '' @ [39] @ str ''ripemd160'' @ [39],
         str ''Error hashing d/b.txt: module '' @ [39] @ str ''hashlib'' @ [39]
           @ str '' has no attribute '' @ [39] @ str ''ripemd160'' @ [39],
         str ''Error hashing d/sub/c.txt: module '' @ [39] @ str ''hashlib'' @ [39]
           @ str '' has no attribute '' @ [39] @ str ''ripemd160'' @ [39],
         str ''Initialization complete. Hash database saved.''],
        example_fs\<lparr>text_files := (text_files example_fs)(HASH_DB \<mapsto> str ''{}'')\<rparr>)"
    by (simp add: main_def p d example_scan_no_attribute save_hashes_def w json_dump_empty
          py_print_def i f)
      (simp add: str_def)
  from c example_attrs(3) m show ?thesis by (intro conjI)
qed

text \<open>
  Claim C7 says that a missing root ends the invocation with an error. With --init and
  a directory that does not exist, main returns normally, having printed its two
  messages and saved the empty snapshot as the baseline.
\<close>

theorem missing_root_init:
  "tree_at example_fs (str ''missing'')
     = Inl (OSError (str ''[Errno 2] No such file or directory: '' @ [39] @ str ''missing'' @ [39])) \<and>
   scan_directory example_hashlib utf8_stdout example_fs (str ''missing'') (str ''sum8'')
     = (Inr [], []) \<and>
   main sorted_list_of_set example_hashlib utf8_stdout example_fs (missing_args True)
     = (Returned,
        [str ''Initializing hash database for missing...'',
         str ''Initialization complete. Hash database saved.''],
        example_fs\<lparr>text_files := (text_files example_fs)(HASH_DB \<mapsto> str ''{}'')\<rparr>)"
proof -
  have s: "scan_directory example_hashlib utf8_stdout example_fs (str ''missing'') (str ''sum8'')
             = (Inr [], [])"
    by (rule scan_directory_unreadable [OF example_root_unreadable])
  have w: "write_error example_fs HASH_DB = None"
    by (simp add: example_fs_def)
  have d: "arg_directory (missing_args True) = str ''missing''" "arg_init (missing_args True)"
    by (simp_all add: missing_args_def)
  have i: "utf8_stdout (str ''Initializing hash database for '' @ str ''missing'' @ str ''...'') = None"
    by (rule utf8_stdout_ascii) (simp add: str_def)
  have f: "utf8_stdout (str ''Initialization complete. Hash database saved.'') = None"
    by (rule utf8_stdout_ascii) (simp add: str_def)
  have m: "main sorted_list_of_set example_hashlib utf8_stdout example_fs (missing_args True)
     = (Returned,
        [str ''Initializing hash database for missing...'',
         str ''Initialization complete. Hash database saved.''],
        example_fs\<lparr>text_files := (text_files example_fs)(HASH_DB \<mapsto> str ''{}'')\<rparr>)"
    by (simp add: main_def example_parse_args d s save_hashes_def w json_dump_empty
          py_print_def i f)
      (simp add: str_def)
  from example_missing s m show ?thesis by (intro conjI)
qed

text \<open>
  Claim C7, amended. A root that is missing, is a file or cannot be listed is no error:
  scan_directory returns the empty snapshot and prints nothing, whatever standard
  output accepts. With --init, when standard output accepts the two messages of main
  and the baseline file can be written, main saves the empty snapshot and returns.
  In a check, when the iteration order is one of the sets, standard output accepts the
  first message and the baseline loads as a snapshot: with an empty baseline and the
  message of no change accepted, main prints that message and returns; with a baseline
  that is not empty, and the heading of the removed files and the line of every path of
  the baseline accepted, main prints the heading and one line for every path of the
  baseline, and returns. In each case the file system is left as it was, apart from
  the baseline that --init writes.
\<close>

theorem unreadable_root_not_fatal:
  assumes "root_unreadable fs (arg_directory a)"
    and "parse_args hashlib a = Inr algorithm"
  shows "scan_directory hashlib stdout fs (arg_directory a) algorithm = (Inr [], []) \<and>
         (arg_init a \<and>
          stdout (str ''Initializing hash database for '' @ arg_directory a @ str ''...'') = None \<and>
          write_error fs HASH_DB = None \<and>
          stdout (str ''Initialization complete. Hash database saved.'') = None \<longrightarrow>
            main it hashlib stdout fs a
              = (Returned,
                 [str ''Initializing hash database for '' @ arg_directory a @ str ''...'',
                  str ''Initialization complete. Hash database saved.''],
                 fs\<lparr>text_files := (text_files fs)(HASH_DB \<mapsto> str ''{}'')\<rparr>)) \<and>
         (\<not> arg_init a \<and> set_iteration it \<and>
          stdout (str ''Checking file integrity in '' @ arg_directory a @ str ''...'') = None \<longrightarrow>
            (load_hashes fs HASH_DB = Snapshot [] \<and>
             stdout (str ''No file changes detected. All files are intact.'') = None \<longrightarrow>
               main it hashlib stdout fs a
                 = (Returned,
                    [str ''Checking file integrity in '' @ arg_directory a @ str ''...'',
                     str ''No file changes detected. All files are intact.''],
                    fs)) \<and>
            (\<forall>old_hashes.
               load_hashes fs HASH_DB = Snapshot old_hashes \<and> old_hashes \<noteq> [] \<and>
               stdout (str ''Removed files:'') = None \<and>
               (\<forall>f \<in> dict_keys old_hashes. stdout (str ''  - '' @ f) = None) \<longrightarrow>
                 main it hashlib stdout fs a
                   = (Returned,
                      [str ''Checking file integrity in '' @ arg_directory a @ str ''...'',
                       str ''Removed files:'']
                      @ map (\<lambda>f. str ''  - '' @ f) (it (dict_keys old_hashes)),
                      fs)))"
proof (intro conjI impI allI)
  show s: "scan_directory hashlib stdout fs (arg_directory a) algorithm = (Inr [], [])"
    by (rule scan_directory_unreadable [OF assms(1)])
  {
    assume "arg_init a \<and>
          stdout (str ''Initializing hash database for '' @ arg_directory a @ str ''...'') = None \<and>
          write_error fs HASH_DB = None \<and>
          stdout (str ''Initialization complete. Hash database saved.'') = None"
    then show "main it hashlib stdout fs a
              = (Returned,
                 [str ''Initializing hash database for '' @ arg_directory a @ str ''...'',
                  str ''Initialization complete. Hash database saved.''],
                 fs\<lparr>text_files := (text_files fs)(HASH_DB \<mapsto> str ''{}'')\<rparr>)"
      by (simp add: main_def assms(2) s save_hashes_def json_dump_empty py_print_def)
  }
  {
    assume c: "\<not> arg_init a \<and> set_iteration it \<and>
          stdout (str ''Checking file integrity in '' @ arg_directory a @ str ''...'') = None"
      and l: "load_hashes fs HASH_DB = Snapshot [] \<and>
             stdout (str ''No file changes detected. All files are intact.'') = None"
    from c have si: "set_iteration it" by simp
    have "compare_hashes it ([] :: (pystr, pystr) dict) [] = Inr ([], [], [])"
      by (simp add: compare_hashes_empty_current [OF si] dict_keys_def set_iteration_empty [OF si])
    with c l show "main it hashlib stdout fs a
                 = (Returned,
                    [str ''Checking file integrity in '' @ arg_directory a @ str ''...'',
                     str ''No file changes detected. All files are intact.''],
                    fs)"
      by (simp add: main_def assms(2) s py_print_def change_lines_def)
  }
  {
    fix old_hashes
    assume c: "\<not> arg_init a \<and> set_iteration it \<and>
          stdout (str ''Checking file integrity in '' @ arg_directory a @ str ''...'') = None"
      and l: "load_hashes fs HASH_DB = Snapshot old_hashes \<and> old_hashes \<noteq> [] \<and>
               stdout (str ''Removed files:'') = None \<and>
               (\<forall>f \<in> dict_keys old_hashes. stdout (str ''  - '' @ f) = None)"
    from c have cmp: "compare_hashes it old_hashes [] = Inr ([], it (dict_keys old_hashes), [])"
      by (simp add: compare_hashes_empty_current)
    from c l have ne: "it (dict_keys old_hashes) \<noteq> []"
      by (simp add: set_iteration_keys_Nil)
    from c finite_dict_keys [of old_hashes]
    have st: "set (it (dict_keys old_hashes)) = dict_keys old_hashes"
      unfolding set_iteration_def by blast
    have lines: "change_lines [] (it (dict_keys old_hashes)) []
        = str ''Removed files:'' # map (\<lambda>f. str ''  - '' @ f) (it (dict_keys old_hashes))"
      using ne by (simp add: change_lines_def)
    have "\<forall>l \<in> set (change_lines [] (it (dict_keys old_hashes)) []). stdout l = None"
      unfolding lines using l st by auto
    then have pl: "print_lines stdout out (change_lines [] (it (dict_keys old_hashes)) [])
        = (None, out @ str ''Removed files:'' # map (\<lambda>f. str ''  - '' @ f) (it (dict_keys old_hashes)))"
      for out
      by (simp only: print_lines_accepted lines)
    from c l show "main it hashlib stdout fs a
                   = (Returned,
                      [str ''Checking file integrity in '' @ arg_directory a @ str ''...'',
                       str ''Removed files:'']
                      @ map (\<lambda>f. str ''  - '' @ f) (it (dict_keys old_hashes)),
                      fs)"
      by (simp add: main_def assms(2) s py_print_def cmp pl)
  }
qed

text \<open>
  A check of the missing directory in the example, where no baseline exists either,
  prints that no file has changed.
\<close>

theorem unreadable_root_not_fatal_witness:
  "root_unreadable example_fs (arg_directory (missing_args False)) \<and>
   parse_args example_hashlib (missing_args False) = Inr (str ''sum8'') \<and>
   load_hashes example_fs HASH_DB = Snapshot [] \<and>
   main sorted_list_of_set example_hashlib utf8_stdout example_fs (missing_args False)
     = (Returned,
        [str ''Checking file integrity in missing...'',
         str ''No file changes detected. All files are intact.''],
        example_fs)"
proof -
  have d: "arg_directory (missing_args False) = str ''missing''" "\<not> arg_init (missing_args False)"
    by (simp_all add: missing_args_def)
  have r: "root_unreadable example_fs (arg_directory (missing_args False))"
    unfolding d by (rule example_root_unreadable)
  have l: "load_hashes example_fs HASH_DB = Snapshot []"
    by (simp add: load_hashes_def example_fs_def)
  have i: "utf8_stdout (str ''Checking file integrity in '' @ arg_directory (missing_args False) @ str ''...'') = None"
    unfolding d by (rule utf8_stdout_ascii) (simp add: str_def)
  have f: "utf8_stdout (str ''No file changes detected. All files are intact.'') = None"
    by (rule utf8_stdout_ascii) (simp add: str_def)
  from unreadable_root_not_fatal
    [where stdout = utf8_stdout and it = sorted_list_of_set, OF r example_parse_args]
    d(2) set_iteration_sorted [where ?'k = pystr] l i f
  have "main sorted_list_of_set example_hashlib utf8_stdout example_fs (missing_args False)
     = (Returned,
        [str ''Checking file integrity in '' @ arg_directory (missing_args False) @ str ''...'',
         str ''No file changes detected. All files are intact.''],
        example_fs)"
    by blast
  then have m: "main sorted_list_of_set example_hashlib utf8_stdout example_fs (missing_args False)
     = (Returned,
        [str ''Checking file integrity in missing...'',
         str ''No file changes detected. All files are intact.''],
        example_fs)"
    by (simp add: d str_append)
  from r example_parse_args l m show ?thesis by (intro conjI)
qed

end
